theory Spec2Isabelle
  imports Complex_Main "HOL-Library.Sublist"
begin

section \<open>Python values used by the bot\<close>

text \<open>
  Decimal rendering of integers, as \<^verbatim>\<open>str(n)\<close> and an f-string field do it, and the rendering
  of an attribute that may still be \<^verbatim>\<open>None\<close>.
\<close>

definition digit :: "nat \<Rightarrow> char" where
  "digit n = ''0123456789'' ! n"

function str_nat :: "nat \<Rightarrow> string" where
  "str_nat n = (if n < 10 then [digit n] else str_nat (n div 10) @ [digit (n mod 10)])"
  by pat_completeness auto
termination
  by (relation "measure (\<lambda>n. n)") auto

declare str_nat.simps [simp del]

definition str_int :: "int \<Rightarrow> string" where
  "str_int i = (if i < 0 then CHR ''-'' # str_nat (nat (- i)) else str_nat (nat i))"

definition str_pk :: "nat option \<Rightarrow> string" where
  "str_pk k = (case k of None \<Rightarrow> ''None'' | Some n \<Rightarrow> str_nat n)"

text \<open>Truth value of an optional string: \<^verbatim>\<open>None\<close> and the empty string are false.\<close>

definition truthy :: "string option \<Rightarrow> bool" where
  "truthy s = (case s of None \<Rightarrow> False | Some v \<Rightarrow> v \<noteq> [])"

text \<open>
  \<^verbatim>\<open>s.replace(old, new)\<close>: every non-overlapping occurrence of \<open>old\<close>, scanning from the left.
  With an empty \<open>old\<close> Python inserts \<open>new\<close> before every character and at the end.
\<close>

function replace :: "string \<Rightarrow> string \<Rightarrow> string \<Rightarrow> string" where
  "replace old new [] = (if old = [] then new else [])"
| "replace old new (c # cs) =
     (if old = [] then new @ c # replace old new cs
      else if prefix old (c # cs) then new @ replace old new (drop (length old) (c # cs))
      else c # replace old new cs)"
  by pat_completeness auto
termination
  by (relation "measure (\<lambda>(old, new, s). length s)") auto

section \<open>Data model (src/models/database.py)\<close>

text \<open>
  One record per table, with the columns the modelled operations read or write. Primary keys
  are \<open>user_pk\<close>, \<open>item_pk\<close>, \<open>purchase_pk\<close>, \<open>gift_pk\<close> (the column \<^verbatim>\<open>id\<close> of each table);
  \<open>t_user_id\<close>, \<open>t_created_at\<close> are \<^verbatim>\<open>Transaction.user_id\<close>, \<^verbatim>\<open>Transaction.created_at\<close>, and
  \<open>gift_amount\<close>, \<open>gift_status\<close> the columns \<^verbatim>\<open>amount\<close>, \<^verbatim>\<open>status\<close> of gifts. \<open>bot_config\<close> maps a
  key of the configuration table to its (nullable) value. Times are seconds since the epoch.
\<close>

record user =
  user_pk :: nat
  discord_id :: string
  username :: string
  minecraft_uuid :: "string option"
  coins :: int

datatype transaction_type =
  Earn | Spend | Purchase | AdminAdd | AdminRemove | Refund | GiftSent | GiftReceived

record transaction =
  t_user_id :: nat
  transaction_type :: transaction_type
  amount :: int
  description :: string
  t_created_at :: nat
  reference_id :: "string option"

datatype item_type = Discord | Minecraft | Both

record item =
  item_pk :: nat
  item_name :: string
  price :: int
  item_type :: item_type
  discord_role_id :: "string option"
  minecraft_command_template :: "string option"
  is_available :: bool

datatype purchase_status = Pending | Processing | Fulfilled | Failed | Refunded

record purchase =
  purchase_pk :: nat
  user_id :: nat
  item_id :: nat
  quantity :: int
  total_cost :: int
  status :: purchase_status
  fulfilled_at :: "nat option"
  minecraft_command :: "string option"
  discord_role_assigned :: bool

datatype gift_status = GiftPending | GiftCompleted | GiftCancelled

record gift =
  gift_pk :: nat
  sender_id :: nat
  recipient_id :: nat
  gift_amount :: int
  message :: "string option"
  gift_status :: gift_status
  processed_at :: "nat option"

text \<open>The committed content of the store.\<close>

record db =
  users :: "user list"
  items :: "item list"
  purchases :: "purchase list"
  transactions :: "transaction list"
  gifts :: "gift list"
  bot_config :: "string \<rightharpoonup> string option"

text \<open>The key the store gives a row at flush: one past the largest key of the table.\<close>

definition next_pk :: "nat list \<Rightarrow> nat" where
  "next_pk ks = Suc (fold max ks 0)"

text \<open>
  The primary key attribute of an ORM object that was constructed but neither added to the
  session nor flushed: \<^verbatim>\<open>Purchase(...)\<close> and \<^verbatim>\<open>Gift(...)\<close> leave \<^verbatim>\<open>id\<close> at \<^verbatim>\<open>None\<close>.
\<close>

definition unflushed_pk :: "nat option" where
  "unflushed_pk = None"

text \<open>\<^verbatim>\<open>Model.query.get(k)\<close> and \<^verbatim>\<open>User.query.filter_by(discord_id=d).first()\<close>.\<close>

definition get_user :: "db \<Rightarrow> nat \<Rightarrow> user option" where
  "get_user d k = find (\<lambda>u. user_pk u = k) (users d)"

definition get_item :: "db \<Rightarrow> nat \<Rightarrow> item option" where
  "get_item d k = find (\<lambda>i. item_pk i = k) (items d)"

definition get_purchase :: "db \<Rightarrow> nat \<Rightarrow> purchase option" where
  "get_purchase d k = find (\<lambda>q. purchase_pk q = k) (purchases d)"

definition user_by_discord_id :: "db \<Rightarrow> string \<Rightarrow> user option" where
  "user_by_discord_id d a = find (\<lambda>u. discord_id u = a) (users d)"

text \<open>Writing a changed user object or purchase object back to its row.\<close>

definition put_user :: "user \<Rightarrow> db \<Rightarrow> db" where
  "put_user v d = d\<lparr>users := map (\<lambda>u. if user_pk u = user_pk v then v else u) (users d)\<rparr>"

definition upd_purchase :: "nat \<Rightarrow> (purchase \<Rightarrow> purchase) \<Rightarrow> db \<Rightarrow> db" where
  "upd_purchase k f d = d\<lparr>purchases := map (\<lambda>q. if purchase_pk q = k then f q else q) (purchases d)\<rparr>"

text \<open>
  The CHECK constraints the store evaluates on every row a commit writes:
  \<^verbatim>\<open>coins >= 0\<close> on users, \<^verbatim>\<open>quantity > 0\<close> and \<^verbatim>\<open>total_cost > 0\<close> on purchases,
  \<^verbatim>\<open>amount > 0\<close> and \<^verbatim>\<open>sender_id != recipient_id\<close> on gifts (the constraints on the type and
  status columns hold by the datatypes above). A violated
  constraint makes \<^verbatim>\<open>db.session.commit()\<close> raise, and nothing of the session is committed.
\<close>

definition check_coins_non_negative :: "user \<Rightarrow> bool" where
  "check_coins_non_negative u = (0 \<le> coins u)"

definition check_purchase :: "purchase \<Rightarrow> bool" where
  "check_purchase q = (0 < quantity q \<and> 0 < total_cost q)"

definition check_gift :: "gift \<Rightarrow> bool" where
  "check_gift g = (0 < gift_amount g \<and> sender_id g \<noteq> recipient_id g)"

section \<open>Chat command surface and administrative adjustment\<close>

text \<open>
  Every operation takes the committed store and returns the store after it, with the answer
  it sends. The session of one operation is committed as a whole or not at all: the handlers
  catch every exception, so a commit that raises leaves the committed store as it was.
  \<open>app\<close> is the truth value of \<^verbatim>\<open>bot.app\<close>, \<open>now\<close> the value of \<^verbatim>\<open>datetime.utcnow()\<close>.
\<close>

datatype reply =
    NotConfigured
  | QuantityNotPositive
  | AmountNotPositive
  | CannotGiftSelf
  | CannotGiftBot
  | NoAccount
  | ItemNotFound
  | InsufficientCoins int int
  | PurchaseSuccessful int int
  | GiftSentSuccessfully int int
  | ErrorOccurred

text \<open>\<^verbatim>\<open>buy_command\<close> of src/discord_bot_slash.py (lines 375 to 454).\<close>

definition buy_command :: "bool \<Rightarrow> nat \<Rightarrow> db \<Rightarrow> string \<Rightarrow> int \<Rightarrow> int \<Rightarrow> db \<times> reply" where
  "buy_command app now d author item_arg qty =
     (if \<not> app then (d, NotConfigured)
      else if qty \<le> 0 then (d, QuantityNotPositive)
      else case user_by_discord_id d author of
        None \<Rightarrow> (d, NoAccount)
      | Some buyer \<Rightarrow>
         (case find (\<lambda>i. int (item_pk i) = item_arg \<and> is_available i) (items d) of
            None \<Rightarrow> (d, ItemNotFound)
          | Some it \<Rightarrow>
             (let cost = price it * qty in
              if coins buyer < cost then (d, InsufficientCoins cost (coins buyer))
              else
               (let buyer' = buyer\<lparr>coins := coins buyer - cost\<rparr>;
                    purchase_row = \<lparr>purchase_pk = next_pk (map purchase_pk (purchases d)),
                      user_id = user_pk buyer, item_id = item_pk it, quantity = qty,
                      total_cost = cost, status = Pending, fulfilled_at = None,
                      minecraft_command = None, discord_role_assigned = False\<rparr>;
                    transaction_row = \<lparr>t_user_id = user_pk buyer, transaction_type = Purchase,
                      amount = - cost,
                      description = ''Purchased '' @ str_int qty @ ''x '' @ item_name it,
                      t_created_at = now,
                      reference_id = Some (''purchase_'' @ str_pk unflushed_pk)\<rparr>
                in if check_coins_non_negative buyer' \<and> check_purchase purchase_row
                   then ((put_user buyer' d)\<lparr>purchases := purchases d @ [purchase_row],
                            transactions := transactions d @ [transaction_row]\<rparr>,
                         PurchaseSuccessful cost (coins buyer'))
                   else (d, ErrorOccurred)))))"

text \<open>
  \<^verbatim>\<open>get_or_create_user\<close> and \<^verbatim>\<open>buy\<close> of src/discord_bot.py (lines 105 to 120 and 297 to 359).
  The command reads \<^verbatim>\<open>item.is_active\<close>, an attribute the \<^verbatim>\<open>Item\<close> class of src/models/database.py
  does not declare; \<open>is_active\<close> gives the value read, \<open>None\<close> when the read raises.
\<close>

definition get_or_create_user :: "db \<Rightarrow> string \<Rightarrow> string \<Rightarrow> user \<times> db" where
  "get_or_create_user d author display_name =
     (case user_by_discord_id d author of
        Some u \<Rightarrow> (u, d)
      | None \<Rightarrow>
         (let u = \<lparr>user_pk = next_pk (map user_pk (users d)), discord_id = author,
                    username = display_name, minecraft_uuid = None, coins = 0\<rparr>
          in (u, d\<lparr>users := users d @ [u]\<rparr>)))"

definition buy :: "(item \<Rightarrow> bool option) \<Rightarrow> nat \<Rightarrow> db \<Rightarrow> string \<Rightarrow> string \<Rightarrow> int \<Rightarrow> int \<Rightarrow> db \<times> reply" where
  "buy is_active now d author display_name item_arg qty =
     (let (buyer, d1) = get_or_create_user d author display_name in
      case find (\<lambda>i. int (item_pk i) = item_arg) (items d1) of
        None \<Rightarrow> (d1, ItemNotFound)
      | Some it \<Rightarrow>
         (case is_active it of
            None \<Rightarrow> (d1, ErrorOccurred)
          | Some False \<Rightarrow> (d1, ItemNotFound)
          | Some True \<Rightarrow>
             (if qty \<le> 0 then (d1, QuantityNotPositive)
              else
               (let cost = price it * qty in
                if coins buyer < cost then (d1, InsufficientCoins cost (coins buyer))
                else
                 (let buyer' = buyer\<lparr>coins := coins buyer - cost\<rparr>;
                      purchase_row = \<lparr>purchase_pk = next_pk (map purchase_pk (purchases d1)),
                        user_id = user_pk buyer, item_id = item_pk it, quantity = qty,
                        total_cost = cost, status = Pending, fulfilled_at = None,
                        minecraft_command = None, discord_role_assigned = False\<rparr>;
                      transaction_row = \<lparr>t_user_id = user_pk buyer, transaction_type = Purchase,
                        amount = - cost,
                        description = ''Purchased '' @ str_int qty @ ''x '' @ item_name it,
                        t_created_at = now,
                        reference_id = Some (''purchase_'' @ str_pk unflushed_pk)\<rparr>
                  in if check_coins_non_negative buyer' \<and> check_purchase purchase_row
                     then ((put_user buyer' d1)\<lparr>purchases := purchases d1 @ [purchase_row],
                              transactions := transactions d1 @ [transaction_row]\<rparr>,
                           PurchaseSuccessful cost (coins buyer'))
                     else (d1, ErrorOccurred))))))"

text \<open>
  \<^verbatim>\<open>gift_command\<close> of src/discord_bot_slash.py (lines 506 to 626). \<open>author\<close> and \<open>target\<close> are
  the platform identities of the sender and of the recipient member, \<open>target_is_bot\<close> and
  \<open>target_name\<close> the member's \<^verbatim>\<open>bot\<close> flag and display name. Lines 547 to 554 look the
  recipient up and create the row when there is none, as \<open>get_or_create_user\<close> does; the new
  row is only flushed there, so a commit that fails afterwards takes it back too.
\<close>

definition gift_command ::
  "bool \<Rightarrow> nat \<Rightarrow> db \<Rightarrow> string \<Rightarrow> string \<Rightarrow> string \<Rightarrow> string \<Rightarrow> bool \<Rightarrow> int \<Rightarrow> string option
     \<Rightarrow> db \<times> reply" where
  "gift_command app now d author author_name target target_name target_is_bot amt msg =
     (if \<not> app then (d, NotConfigured)
      else if amt \<le> 0 then (d, AmountNotPositive)
      else if target = author then (d, CannotGiftSelf)
      else if target_is_bot then (d, CannotGiftBot)
      else case user_by_discord_id d author of
        None \<Rightarrow> (d, NoAccount)
      | Some sender \<Rightarrow>
         (if coins sender < amt then (d, InsufficientCoins amt (coins sender))
          else
           (let (recipient_user, d1) = get_or_create_user d target target_name;
                gift_row = \<lparr>gift_pk = next_pk (map gift_pk (gifts d1)),
                  sender_id = user_pk sender, recipient_id = user_pk recipient_user,
                  gift_amount = amt, message = msg, gift_status = GiftCompleted,
                  processed_at = Some now\<rparr>;
                sender' = sender\<lparr>coins := coins sender - amt\<rparr>;
                recipient' = recipient_user\<lparr>coins := coins recipient_user + amt\<rparr>;
                sender_transaction = \<lparr>t_user_id = user_pk sender, transaction_type = GiftSent,
                  amount = - amt, description = ''Gift sent to '' @ target_name,
                  t_created_at = now,
                  reference_id = Some (''gift_'' @ str_pk unflushed_pk)\<rparr>;
                recipient_transaction = \<lparr>t_user_id = user_pk recipient_user,
                  transaction_type = GiftReceived, amount = amt,
                  description = ''Gift received from '' @ author_name, t_created_at = now,
                  reference_id = Some (''gift_'' @ str_pk unflushed_pk)\<rparr>
            in if check_coins_non_negative sender' \<and> check_coins_non_negative recipient'
                  \<and> check_gift gift_row
               then ((put_user recipient' (put_user sender' d1))\<lparr>gifts := gifts d1 @ [gift_row],
                        transactions := transactions d1 @ [sender_transaction, recipient_transaction]\<rparr>,
                     GiftSentSuccessfully amt (coins sender'))
               else (d, ErrorOccurred))))"

text \<open>
  \<^verbatim>\<open>process_coin_earning\<close> of src/discord_bot_slash.py (lines 74 to 151). \<open>py_int\<close> is Python's
  \<^verbatim>\<open>int\<close> on a string, \<open>None\<close> where it raises. Reading the three settings is one \<^verbatim>\<open>try\<close> block:
  if any read raises, all three take their defaults. Lines 84 to 92 look the author up and
  create and commit the row when there is none, as \<open>get_or_create_user\<close> does.
\<close>

definition config_value :: "(string \<Rightarrow> int option) \<Rightarrow> db \<Rightarrow> string \<Rightarrow> int \<Rightarrow> int option" where
  "config_value py_int d k dflt =
     (case bot_config d k of
        None \<Rightarrow> Some dflt
      | Some None \<Rightarrow> None
      | Some (Some v) \<Rightarrow> py_int v)"

definition load_config :: "(string \<Rightarrow> int option) \<Rightarrow> db \<Rightarrow> int \<times> int \<times> int" where
  "load_config py_int d =
     (case (config_value py_int d ''coins_per_message'' 1,
            config_value py_int d ''message_cooldown'' 60,
            config_value py_int d ''max_daily_coins'' 100) of
        (Some c, Some m, Some x) \<Rightarrow> (c, m, x)
      | _ \<Rightarrow> (1, 60, 100))"

definition process_coin_earning ::
  "bool \<Rightarrow> (string \<Rightarrow> int option) \<Rightarrow> nat \<Rightarrow> db \<Rightarrow> string \<Rightarrow> string \<Rightarrow> string \<Rightarrow> db" where
  "process_coin_earning app py_int now d author display_name channel =
     (if \<not> app then d
      else
       (let (u, d1) = get_or_create_user d author display_name;
            (coins_per_message, message_cooldown, max_daily_coins) = load_config py_int d1;
            earned = filter (\<lambda>t. t_user_id t = user_pk u \<and> transaction_type t = Earn)
                       (transactions d1)
        in if earned \<noteq> []
              \<and> int now - int (fold max (map t_created_at earned) 0) < message_cooldown
           then d1
           else
            (let today_start = now - now mod 86400;
                 today_earnings =
                   sum_list (map amount (filter (\<lambda>t. today_start \<le> t_created_at t) earned))
             in if max_daily_coins \<le> today_earnings then d1
                else
                 (let coins_to_award = min coins_per_message (max_daily_coins - today_earnings);
                      u' = u\<lparr>coins := coins u + coins_to_award\<rparr>;
                      transaction_row = \<lparr>t_user_id = user_pk u, transaction_type = Earn,
                        amount = coins_to_award,
                        description = ''Earned from message in #'' @ channel,
                        t_created_at = now, reference_id = None\<rparr>
                  in if check_coins_non_negative u'
                     then (put_user u' d1)\<lparr>transactions := transactions d1 @ [transaction_row]\<rparr>
                     else d1))))"

text \<open>
  \<^verbatim>\<open>update_user_coins\<close> of src/routes/api.py (lines 57 to 88), for a request whose body is a
  JSON object; \<open>amount_field\<close> and \<open>description_field\<close> are its members \<^verbatim>\<open>amount\<close> and
  \<^verbatim>\<open>description\<close>, \<open>None\<close> when absent. \<open>update_user_coins_session\<close> is the user object and the
  transaction object as the session holds them when \<^verbatim>\<open>db.session.commit()\<close> is called;
  \<^verbatim>\<open>get_or_404\<close> raises for a missing user and the handler answers every exception alike.
\<close>

datatype json = JStr string | JInt int

type_synonym response = "(string \<times> json) list \<times> nat"

definition update_user_coins_session ::
  "nat \<Rightarrow> db \<Rightarrow> nat \<Rightarrow> int option \<Rightarrow> string option \<Rightarrow> (user \<times> transaction) option" where
  "update_user_coins_session now d k amount_field description_field =
     (let amt = (case amount_field of None \<Rightarrow> 0 | Some a \<Rightarrow> a);
          descr = (case description_field of None \<Rightarrow> ''Admin adjustment'' | Some s \<Rightarrow> s)
      in case get_user d k of
           None \<Rightarrow> None
         | Some u \<Rightarrow>
            Some (u\<lparr>coins := coins u + amt\<rparr>,
                  \<lparr>t_user_id = user_pk u,
                   transaction_type = (if 0 < amt then AdminAdd else AdminRemove),
                   amount = amt, description = descr, t_created_at = now,
                   reference_id = None\<rparr>))"

definition update_user_coins ::
  "nat \<Rightarrow> db \<Rightarrow> nat \<Rightarrow> int option \<Rightarrow> string option \<Rightarrow> db \<times> response" where
  "update_user_coins now d k amount_field description_field =
     (case update_user_coins_session now d k amount_field description_field of
        None \<Rightarrow> (d, ([(''error'', JStr ''Internal server error'')], 500))
      | Some (u', transaction_row) \<Rightarrow>
         (if check_coins_non_negative u'
          then ((put_user u' d)\<lparr>transactions := transactions d @ [transaction_row]\<rparr>,
                ([(''message'', JStr ''Coins updated successfully''),
                  (''new_balance'', JInt (coins u'))], 200))
          else (d, ([(''error'', JStr ''Internal server error'')], 500))))"

section \<open>Remote execution client (src/minecraft_integration.py)\<close>

text \<open>
  A blocking call handed to \<^verbatim>\<open>asyncio.to_thread\<close> ends by returning a value or by raising an
  exception (with its message) after some seconds, or it never ends. \<^verbatim>\<open>asyncio.wait_for\<close> with
  a timeout of \<open>t\<close> seconds passes on what a call that ends before \<open>t\<close> did, and raises
  \<^verbatim>\<open>TimeoutError\<close> otherwise.
\<close>

datatype 'a thread_run = Finishes real 'a | Raises real string | Hangs

datatype 'a awaited = Value 'a | TimeoutError | Exception string

definition wait_for :: "real \<Rightarrow> 'a thread_run \<Rightarrow> 'a awaited" where
  "wait_for t r =
     (case r of
        Finishes s v \<Rightarrow> if s < t then Value v else TimeoutError
      | Raises s e \<Rightarrow> if s < t then Exception e else TimeoutError
      | Hangs \<Rightarrow> TimeoutError)"

record minecraft_integration =
  default_host :: string
  default_port :: nat
  default_rcon_host :: string
  default_rcon_port :: nat
  default_rcon_password :: string

text \<open>Python's \<^verbatim>\<open>x or default\<close> on an optional string and on an optional port number.\<close>

definition or_str :: "string option \<Rightarrow> string \<Rightarrow> string" where
  "or_str x dflt = (case x of None \<Rightarrow> dflt | Some v \<Rightarrow> if v = [] then dflt else v)"

definition or_port :: "nat option \<Rightarrow> nat \<Rightarrow> nat" where
  "or_port x dflt = (case x of None \<Rightarrow> dflt | Some v \<Rightarrow> if v = 0 then dflt else v)"

text \<open>What a status answer of the game server carries, and the values of the result dictionary.\<close>

record server_answer =
  players_online :: int
  players_max :: int
  version_name :: string
  motd :: string
  latency :: real

datatype pyval = PBool bool | PInt int | PStr string | PFloat real

text \<open>
  \<^verbatim>\<open>get_server_status\<close> (lines 23 to 73). \<open>lookup\<close> stands for \<^verbatim>\<open>JavaServer.lookup\<close> applied to
  \<^verbatim>\<open>host:port\<close>: it raises (\<open>Inl\<close> the message) or gives a server whose \<^verbatim>\<open>status\<close> call runs as
  the \<open>thread_run\<close> says.
\<close>

definition get_server_status ::
  "minecraft_integration \<Rightarrow> (string \<Rightarrow> string + server_answer thread_run)
     \<Rightarrow> string option \<Rightarrow> nat option \<Rightarrow> (string \<rightharpoonup> pyval)" where
  "get_server_status mi lookup host_arg port_arg =
     (let host = or_str host_arg (default_host mi);
          port = or_port port_arg (default_port mi);
          awaited = (case lookup (host @ '':'' @ str_nat port) of
                       Inl e \<Rightarrow> Exception e
                     | Inr server \<Rightarrow> wait_for 10 server)
      in case awaited of
           Value st \<Rightarrow>
             [''online'' \<mapsto> PBool True,
              ''players_online'' \<mapsto> PInt (players_online st),
              ''max_players'' \<mapsto> PInt (players_max st),
              ''version'' \<mapsto> PStr (version_name st),
              ''description'' \<mapsto> PStr (motd st),
              ''latency'' \<mapsto> PFloat (latency st),
              ''host'' \<mapsto> PStr host,
              ''port'' \<mapsto> PInt (int port)]
         | TimeoutError \<Rightarrow>
             [''online'' \<mapsto> PBool False, ''error'' \<mapsto> PStr ''Timeout'',
              ''host'' \<mapsto> PStr host, ''port'' \<mapsto> PInt (int port)]
         | Exception e \<Rightarrow>
             [''online'' \<mapsto> PBool False, ''error'' \<mapsto> PStr e,
              ''host'' \<mapsto> PStr host, ''port'' \<mapsto> PInt (int port)])"

text \<open>
  \<^verbatim>\<open>execute_command\<close> (lines 127 to 164). \<open>rcon\<close> stands for \<^verbatim>\<open>_execute_rcon_command\<close>: one
  password-authenticated session that sends the command and returns the response text.
\<close>

definition execute_command ::
  "minecraft_integration \<Rightarrow> (string \<Rightarrow> string \<Rightarrow> nat \<Rightarrow> string \<Rightarrow> string thread_run)
     \<Rightarrow> string \<Rightarrow> string option \<Rightarrow> nat option \<Rightarrow> string option \<Rightarrow> bool" where
  "execute_command mi rcon command host_arg port_arg password_arg =
     (let rcon_host = or_str host_arg (default_rcon_host mi);
          rcon_port = or_port port_arg (default_rcon_port mi);
          rcon_password = or_str password_arg (default_rcon_password mi)
      in if rcon_password = [] then False
         else case wait_for 30 (rcon command rcon_host rcon_port rcon_password) of
                Value result \<Rightarrow> True
              | TimeoutError \<Rightarrow> False
              | Exception e \<Rightarrow> False)"

section \<open>Fulfillment worker\<close>

text \<open>
  What lies outside the process: whether the bot has its application (\<^verbatim>\<open>self.app\<close>), the
  settings \<^verbatim>\<open>MinecraftIntegration()\<close> reads from the environment, the remote command server, the
  chat platform, and the clock. \<open>grant_role\<close> is the result of \<^verbatim>\<open>assign_discord_role\<close> for a
  platform identity and a role identifier: its body consists of calls to the chat platform
  inside a handler that turns every exception into \<^verbatim>\<open>False\<close>.
\<close>

record world =
  app_set :: bool
  integration :: minecraft_integration
  rcon_server :: "string \<Rightarrow> string \<Rightarrow> nat \<Rightarrow> string \<Rightarrow> string thread_run"
  grant_role :: "string \<Rightarrow> string \<Rightarrow> bool"
  clock :: nat

text \<open>
  The worker's visible actions, in order: a commit with the purchase rows it writes (key and
  status), a role grant, a call of the remote execution client with the resolved command,
  a direct message to the buyer. The first component is the purchase's key.
\<close>

datatype event =
    EvCommit "(nat \<times> purchase_status) list"
  | EvAssignRole nat string
  | EvExecuteCommand nat string
  | EvNotify nat

text \<open>
  \<^verbatim>\<open>execute_minecraft_command\<close> of src/discord_bot_slash.py (lines 257 to 279);
  \<open>resolve_command\<close> is its substitution of the placeholders (lines 265 to 267).
\<close>

definition resolve_command :: "user \<Rightarrow> string \<Rightarrow> string" where
  "resolve_command u template =
     (let command = replace ''{username}'' (username u) template;
          command = replace ''{discord_id}'' (discord_id u) command;
          command = replace ''{minecraft_uuid}'' (or_str (minecraft_uuid u) (username u)) command
      in command)"

definition execute_minecraft_command ::
  "world \<Rightarrow> user \<Rightarrow> item \<Rightarrow> nat \<Rightarrow> db \<Rightarrow> db \<times> bool \<times> event list" where
  "execute_minecraft_command w u it k d =
     (case minecraft_command_template it of
        None \<Rightarrow> (d, False, [])
      | Some template \<Rightarrow>
         (let command = resolve_command u template;
              success = execute_command (integration w) (rcon_server w) command None None None
          in (if success then upd_purchase k (\<lambda>q. q\<lparr>minecraft_command := Some command\<rparr>) d else d,
              success, [EvExecuteCommand k command])))"

text \<open>
  \<^verbatim>\<open>fulfill_purchase\<close> of src/discord_bot_slash.py (lines 212 to 235). \<open>required_role\<close> and
  \<open>required_template\<close> are the guards of its two \<^verbatim>\<open>if\<close> statements: the role, respectively the
  command template, when the item's type asks for that side effect and the column is set.
\<close>

definition required_role :: "item \<Rightarrow> string option" where
  "required_role it =
     (if item_type it \<in> {Discord, Both} \<and> truthy (discord_role_id it)
      then discord_role_id it else None)"

definition required_template :: "item \<Rightarrow> string option" where
  "required_template it =
     (if item_type it \<in> {Minecraft, Both} \<and> truthy (minecraft_command_template it)
      then minecraft_command_template it else None)"

definition fulfill_purchase ::
  "world \<Rightarrow> nat \<Rightarrow> item \<Rightarrow> user \<Rightarrow> db \<Rightarrow> db \<times> bool \<times> event list" where
  "fulfill_purchase w k it u d =
     (let (d1, success1, evs1) =
            (case required_role it of
               Some role \<Rightarrow>
                 (let discord_success = grant_role w (discord_id u) role
                  in (if discord_success
                      then upd_purchase k (\<lambda>q. q\<lparr>discord_role_assigned := True\<rparr>) d
                      else d,
                      discord_success, [EvAssignRole k role]))
             | None \<Rightarrow> (d, True, []));
          (d2, success2, evs2) =
            (case required_template it of
               Some template \<Rightarrow> execute_minecraft_command w u it k d1
             | None \<Rightarrow> (d1, True, []))
      in (d2, success1 \<and> success2, evs1 @ evs2))"

text \<open>
  \<^verbatim>\<open>process_pending_purchases\<close> of src/discord_bot_slash.py (lines 169 to 210), one iteration in
  two parts: the claim (lines 183 and 184) and what follows it (lines 186 to 202). The loop
  runs over the purchases the query returned; every write goes to the row with the key of the
  loop's purchase. The handler of lines 204 to 207 is reached only when the store itself
  fails, since \<^verbatim>\<open>fulfill_purchase\<close> catches every exception of the side effects.
\<close>

definition claim_purchase :: "purchase \<Rightarrow> db \<Rightarrow> db \<times> event list" where
  "claim_purchase p d =
     (upd_purchase (purchase_pk p) (\<lambda>q. q\<lparr>status := Processing\<rparr>) d,
      [EvCommit [(purchase_pk p, Processing)]])"

definition settle_purchase :: "world \<Rightarrow> purchase \<Rightarrow> db \<Rightarrow> db \<times> event list" where
  "settle_purchase w p d =
     (case (get_item d (item_id p), get_user d (user_id p)) of
        (Some it, Some u) \<Rightarrow>
          (let (d1, success, evs) = fulfill_purchase w (purchase_pk p) it u d
           in if success
              then (upd_purchase (purchase_pk p)
                      (\<lambda>q. q\<lparr>status := Fulfilled, fulfilled_at := Some (clock w)\<rparr>) d1,
                    evs @ [EvCommit [(purchase_pk p, Fulfilled)]])
              else (upd_purchase (purchase_pk p) (\<lambda>q. q\<lparr>status := Failed\<rparr>) d1,
                    evs @ [EvCommit [(purchase_pk p, Failed)]]))
      | _ \<Rightarrow>
          (upd_purchase (purchase_pk p) (\<lambda>q. q\<lparr>status := Failed\<rparr>) d,
           [EvCommit [(purchase_pk p, Failed)]]))"

definition process_purchase :: "world \<Rightarrow> purchase \<Rightarrow> db \<Rightarrow> db \<times> event list" where
  "process_purchase w p d =
     (let (d1, evs1) = claim_purchase p d;
          (d2, evs2) = settle_purchase w p d1
      in (d2, evs1 @ evs2))"

fun sweep :: "world \<Rightarrow> purchase list \<Rightarrow> db \<Rightarrow> db \<times> event list" where
  "sweep w [] d = (d, [])"
| "sweep w (p # ps) d =
     (let (d1, evs1) = process_purchase w p d;
          (d2, evs2) = sweep w ps d1
      in (d2, evs1 @ evs2))"

definition pending_purchases :: "db \<Rightarrow> purchase list" where
  "pending_purchases d = filter (\<lambda>q. status q = Pending) (purchases d)"

definition process_pending_purchases :: "world \<Rightarrow> db \<Rightarrow> db \<times> event list" where
  "process_pending_purchases w d =
     (if \<not> app_set w then (d, []) else sweep w (pending_purchases d) d)"

text \<open>
  \<^verbatim>\<open>process_pending_purchases\<close> of src/discord_bot.py (lines 193 to 243), the worker of the
  prefix-command bot. \<open>format\<close> is \<^verbatim>\<open>str.format\<close> of the template with the keyword \<^verbatim>\<open>username\<close>,
  \<open>None\<close> where it raises; \<open>direct_message\<close> tells, for a platform identity, how the lookup of
  the buyer and the message to them end. The session is committed once, after the loop.
\<close>

datatype dm_target = BadIdentity | NotCached | Delivered | SendRaises

definition discord_bot_process_purchase ::
  "(string \<Rightarrow> string \<Rightarrow> string option) \<Rightarrow> (string \<Rightarrow> dm_target) \<Rightarrow> world \<Rightarrow> purchase \<Rightarrow> db
     \<Rightarrow> db \<times> event list" where
  "discord_bot_process_purchase format direct_message w p d =
     (case (get_user d (user_id p), get_item d (item_id p)) of
        (Some u, Some it) \<Rightarrow>
          (case (case minecraft_command_template it of
                   None \<Rightarrow> None
                 | Some template \<Rightarrow> format template (or_str (minecraft_uuid u) (username u))) of
             None \<Rightarrow> (upd_purchase (purchase_pk p) (\<lambda>q. q\<lparr>status := Failed\<rparr>) d, [])
           | Some command \<Rightarrow>
              (if execute_command (integration w) (rcon_server w) command None None None
               then
                (let d1 = upd_purchase (purchase_pk p)
                            (\<lambda>q. q\<lparr>status := Fulfilled, fulfilled_at := Some (clock w),
                                   minecraft_command := Some command\<rparr>) d
                 in case direct_message (discord_id u) of
                      BadIdentity \<Rightarrow>
                        (upd_purchase (purchase_pk p) (\<lambda>q. q\<lparr>status := Failed\<rparr>) d1,
                         [EvExecuteCommand (purchase_pk p) command])
                    | NotCached \<Rightarrow> (d1, [EvExecuteCommand (purchase_pk p) command])
                    | Delivered \<Rightarrow>
                        (d1, [EvExecuteCommand (purchase_pk p) command, EvNotify (purchase_pk p)])
                    | SendRaises \<Rightarrow>
                        (upd_purchase (purchase_pk p) (\<lambda>q. q\<lparr>status := Failed\<rparr>) d1,
                         [EvExecuteCommand (purchase_pk p) command, EvNotify (purchase_pk p)]))
               else (upd_purchase (purchase_pk p) (\<lambda>q. q\<lparr>status := Failed\<rparr>) d,
                     [EvExecuteCommand (purchase_pk p) command])))
      | _ \<Rightarrow> (d, []))"

fun discord_bot_sweep ::
  "(string \<Rightarrow> string \<Rightarrow> string option) \<Rightarrow> (string \<Rightarrow> dm_target) \<Rightarrow> world \<Rightarrow> purchase list \<Rightarrow> db
     \<Rightarrow> db \<times> event list" where
  "discord_bot_sweep format direct_message w [] d = (d, [])"
| "discord_bot_sweep format direct_message w (p # ps) d =
     (let (d1, evs1) = discord_bot_process_purchase format direct_message w p d;
          (d2, evs2) = discord_bot_sweep format direct_message w ps d1
      in (d2, evs1 @ evs2))"

definition discord_bot_process_pending_purchases ::
  "(string \<Rightarrow> string \<Rightarrow> string option) \<Rightarrow> (string \<Rightarrow> dm_target) \<Rightarrow> world \<Rightarrow> db
     \<Rightarrow> db \<times> event list" where
  "discord_bot_process_pending_purchases format direct_message w d =
     (let (session, evs) = discord_bot_sweep format direct_message w (pending_purchases d) d
      in (session,
          evs @ [EvCommit (map (\<lambda>q. (purchase_pk q, status q))
                   (filter (\<lambda>q. q \<notin> set (purchases d)) (purchases session)))]))"

section \<open>Properties and example data\<close>

text \<open>
  The ledger of a user is the sum of the amounts of the user's transactions; the store is
  consistent when every user's cached \<open>coins\<close> equals it and every transaction belongs to a
  user of the store (the foreign key of \<^verbatim>\<open>transactions.user_id\<close>).
\<close>

definition ledger_sum :: "transaction list \<Rightarrow> nat \<Rightarrow> int" where
  "ledger_sum ts k = sum_list (map amount (filter (\<lambda>t. t_user_id t = k) ts))"

definition balance_of :: "db \<Rightarrow> nat \<Rightarrow> int" where
  "balance_of d k = (case get_user d k of None \<Rightarrow> 0 | Some u \<Rightarrow> coins u)"

definition rows_consistent :: "user list \<Rightarrow> transaction list \<Rightarrow> bool" where
  "rows_consistent us ts =
     (list_all (\<lambda>u. coins u = ledger_sum ts (user_pk u)) us
      \<and> list_all (\<lambda>t. t_user_id t \<in> set (map user_pk us)) ts)"

definition ledger_consistent :: "db \<Rightarrow> bool" where
  "ledger_consistent d = rows_consistent (users d) (transactions d)"

definition coins_non_negative :: "db \<Rightarrow> bool" where
  "coins_non_negative d = list_all check_coins_non_negative (users d)"

text \<open>The balance-mutating operations the system exposes, with their arguments.\<close>

datatype operation =
    MessageEarn string string string
  | BuyItem string int int
  | GiftTransfer string string string string bool int "string option"
  | AdminAdjust nat "int option" "string option"

fun apply_operation :: "bool \<Rightarrow> (string \<Rightarrow> int option) \<Rightarrow> nat \<Rightarrow> operation \<Rightarrow> db \<Rightarrow> db" where
  "apply_operation app py_int now (MessageEarn author display_name channel) d =
     process_coin_earning app py_int now d author display_name channel"
| "apply_operation app py_int now (BuyItem author item_arg qty) d =
     fst (buy_command app now d author item_arg qty)"
| "apply_operation app py_int now (GiftTransfer author author_name target target_name is_bot amt msg) d =
     fst (gift_command app now d author author_name target target_name is_bot amt msg)"
| "apply_operation app py_int now (AdminAdjust k amount_field description_field) d =
     fst (update_user_coins now d k amount_field description_field)"

text \<open>
  A trace puts the claim first when every role grant and every call of the remote execution
  client comes after a commit that wrote status \<open>Processing\<close> for the same purchase;
  \<open>claimed\<close> holds the keys committed as processing so far.
\<close>

fun claim_first :: "nat list \<Rightarrow> event list \<Rightarrow> bool" where
  "claim_first claimed [] = True"
| "claim_first claimed (EvCommit rows # evs) =
     claim_first (map fst (filter (\<lambda>r. snd r = Processing) rows) @ claimed) evs"
| "claim_first claimed (EvAssignRole k role # evs) = (k \<in> set claimed \<and> claim_first claimed evs)"
| "claim_first claimed (EvExecuteCommand k command # evs) =
     (k \<in> set claimed \<and> claim_first claimed evs)"
| "claim_first claimed (EvNotify k # evs) = claim_first claimed evs"

text \<open>The purchase an event is about.\<close>

fun event_keys :: "event \<Rightarrow> nat list" where
  "event_keys (EvCommit rows) = map fst rows"
| "event_keys (EvAssignRole k role) = [k]"
| "event_keys (EvExecuteCommand k command) = [k]"
| "event_keys (EvNotify k) = [k]"

fun is_notify :: "event \<Rightarrow> bool" where
  "is_notify (EvNotify k) = True"
| "is_notify e = False"

text \<open>
  A small store: two users, a command item priced 200, an item that asks for a role and a
  command, and pending purchases; a world where every side effect succeeds and one where the
  remote command server refuses the connection.
\<close>

definition steve :: user where
  "steve = \<lparr>user_pk = 1, discord_id = ''1001'', username = ''Steve'', minecraft_uuid = None,
             coins = 50\<rparr>"

definition alex :: user where
  "alex = \<lparr>user_pk = 2, discord_id = ''1002'', username = ''Alex'',
            minecraft_uuid = Some ''069a79f4'', coins = 0\<rparr>"

definition sword :: item where
  "sword = \<lparr>item_pk = 1, item_name = ''Diamond Sword'', price = 200, item_type = Minecraft,
             discord_role_id = None,
             minecraft_command_template = Some ''give {username} diamond_sword 1'',
             is_available = True\<rparr>"

definition vip :: item where
  "vip = \<lparr>item_pk = 2, item_name = ''VIP'', price = 30, item_type = Both,
           discord_role_id = Some ''777'',
           minecraft_command_template = Some ''lp user {username} parent add vip'',
           is_available = True\<rparr>"

definition order1 :: purchase where
  "order1 = \<lparr>purchase_pk = 1, user_id = 1, item_id = 2, quantity = 1, total_cost = 30,
              status = Pending, fulfilled_at = None, minecraft_command = None,
              discord_role_assigned = False\<rparr>"

definition order2 :: purchase where
  "order2 = \<lparr>purchase_pk = 2, user_id = 2, item_id = 1, quantity = 1, total_cost = 200,
              status = Pending, fulfilled_at = None, minecraft_command = None,
              discord_role_assigned = False\<rparr>"

definition orphan :: purchase where
  "orphan = \<lparr>purchase_pk = 3, user_id = 9, item_id = 1, quantity = 1, total_cost = 200,
              status = Pending, fulfilled_at = None, minecraft_command = None,
              discord_role_assigned = False\<rparr>"

definition seed :: transaction where
  "seed = \<lparr>t_user_id = 1, transaction_type = Earn, amount = 50,
            description = ''Earned from message in #general'', t_created_at = 5,
            reference_id = None\<rparr>"

definition shop :: db where
  "shop = \<lparr>users = [steve, alex], items = [sword, vip], purchases = [order1],
            transactions = [seed], gifts = [], bot_config = Map.empty\<rparr>"

definition mc :: minecraft_integration where
  "mc = \<lparr>default_host = ''localhost'', default_port = 25565,
          default_rcon_host = ''localhost'', default_rcon_port = 25575,
          default_rcon_password = ''secret''\<rparr>"

definition all_up :: world where
  "all_up = \<lparr>app_set = True, integration = mc,
              rcon_server = (\<lambda>command host port password. Finishes 1 ''ok''),
              grant_role = (\<lambda>identity role. True), clock = 1000\<rparr>"

definition rcon_down :: world where
  "rcon_down = \<lparr>app_set = True, integration = mc,
                 rcon_server = (\<lambda>command host port password. Raises 0 ''Connection refused''),
                 grant_role = (\<lambda>identity role. True), clock = 1000\<rparr>"

text \<open>
  Two items whose type asks for a side effect that the row does not describe: a \<open>Both\<close> item
  with a command template and no role identifier, and a \<open>Minecraft\<close> item with no command
  template; a store with one pending purchase of each; and a world where the command server
  answers and no role grant succeeds.
\<close>

definition bare_vip :: item where
  "bare_vip = \<lparr>item_pk = 3, item_name = ''VIP (no role)'', price = 30, item_type = Both,
                discord_role_id = None,
                minecraft_command_template = Some ''lp user {username} parent add vip'',
                is_available = True\<rparr>"

definition bare_kit :: item where
  "bare_kit = \<lparr>item_pk = 4, item_name = ''Kit (no command)'', price = 30,
                item_type = Minecraft, discord_role_id = None,
                minecraft_command_template = None, is_available = True\<rparr>"

definition order4 :: purchase where
  "order4 = \<lparr>purchase_pk = 4, user_id = 1, item_id = 3, quantity = 1, total_cost = 30,
              status = Pending, fulfilled_at = None, minecraft_command = None,
              discord_role_assigned = False\<rparr>"

definition order5 :: purchase where
  "order5 = \<lparr>purchase_pk = 5, user_id = 1, item_id = 4, quantity = 1, total_cost = 30,
              status = Pending, fulfilled_at = None, minecraft_command = None,
              discord_role_assigned = False\<rparr>"

definition bare_shop :: db where
  "bare_shop = shop\<lparr>items := [sword, vip, bare_vip, bare_kit], purchases := [order4, order5]\<rparr>"

definition no_grants :: world where
  "no_grants = \<lparr>app_set = True, integration = mc,
                 rcon_server = (\<lambda>command host port password. Finishes 1 ''ok''),
                 grant_role = (\<lambda>identity role. False), clock = 1000\<rparr>"

text \<open>\<^verbatim>\<open>str.format\<close> on templates whose only field is \<^verbatim>\<open>{username}\<close>.\<close>

definition format_username :: "string \<Rightarrow> string \<Rightarrow> string option" where
  "format_username template name = Some (replace ''{username}'' name template)"

text \<open>
  Stores for the worker: one whose only purchase refers to a user that does not exist, one
  whose purchase is already fulfilled, and one with two pending purchases, followed through
  two sweeps that overlap. The first sweep queries \<open>two_orders\<close> and claims \<open>order1\<close>; while it
  awaits the side effects of \<open>order1\<close>, the second sweep runs on \<open>after_first_claim\<close>; the
  first sweep then settles \<open>order1\<close> and goes on to \<open>order2\<close>, the next purchase of its query.
\<close>

definition orphan_shop :: db where
  "orphan_shop = shop\<lparr>purchases := [orphan]\<rparr>"

definition settled_shop :: db where
  "settled_shop = shop\<lparr>purchases := [order1\<lparr>status := Fulfilled\<rparr>]\<rparr>"

definition two_orders :: db where
  "two_orders = shop\<lparr>purchases := [order1, order2]\<rparr>"

definition after_first_claim :: db where
  "after_first_claim = fst (claim_purchase order1 two_orders)"

definition after_second_sweep :: db where
  "after_second_sweep = fst (process_pending_purchases all_up after_first_claim)"

definition after_first_settled :: db where
  "after_first_settled = fst (settle_purchase all_up order1 after_second_sweep)"

section \<open>Facts about the model\<close>

subsection \<open>Strings and keys\<close>

lemma digit_not_e: "k < 10 \<Longrightarrow> digit k \<noteq> CHR ''e''"
proof -
  assume "k < 10"
  then have "k \<in> {0, 1, 2, 3, 4, 5, 6, 7, 8, 9}" by auto
  then show ?thesis by (auto simp: digit_def)
qed

lemma last_str_nat: "last (str_nat n) = digit (n mod 10)"
  by (subst str_nat.simps) simp

lemma str_nat_not_None: "str_nat n \<noteq> ''None''"
proof
  assume h: "str_nat n = ''None''"
  have "last (str_nat n) = CHR ''e''" by (simp add: h)
  then have "digit (n mod 10) = CHR ''e''" by (simp add: last_str_nat)
  moreover have "n mod 10 < 10" by simp
  ultimately show False using digit_not_e by blast
qed

lemma fold_max_ge: "a \<le> fold max ks (a::nat)"
  by (induction ks arbitrary: a) (auto intro: order_trans [OF max.cobounded2])

lemma fold_max_bound: "x \<in> set ks \<Longrightarrow> x \<le> fold max ks (a::nat)"
proof (induction ks arbitrary: a)
  case Nil
  then show ?case by simp
next
  case (Cons k ks)
  show ?case
  proof (cases "x = k")
    case True
    have "k \<le> max k a" by simp
    also have "\<dots> \<le> fold max ks (max k a)" by (rule fold_max_ge)
    finally show ?thesis using True by simp
  next
    case False
    with Cons show ?thesis by simp
  qed
qed

lemma next_pk_fresh: "next_pk ks \<notin> set ks"
proof
  assume "next_pk ks \<in> set ks"
  then have "next_pk ks \<le> fold max ks 0" by (rule fold_max_bound)
  then show False by (simp add: next_pk_def)
qed

subsection \<open>Rows of the store\<close>

lemma upd_purchase_other_tables [simp]:
  "users (upd_purchase k f d) = users d"
  "items (upd_purchase k f d) = items d"
  "transactions (upd_purchase k f d) = transactions d"
  by (simp_all add: upd_purchase_def)

lemma get_user_upd_purchase [simp]: "get_user (upd_purchase k f d) = get_user d"
  by (rule ext) (simp add: get_user_def)

lemma get_item_upd_purchase [simp]: "get_item (upd_purchase k f d) = get_item d"
  by (rule ext) (simp add: get_item_def)

lemma find_map_upd:
  assumes "\<And>q. purchase_pk (f q) = purchase_pk q"
  shows "find (\<lambda>q. purchase_pk q = j) (map (\<lambda>q. if purchase_pk q = k then f q else q) qs)
       = (if j = k then map_option f (find (\<lambda>q. purchase_pk q = j) qs)
          else find (\<lambda>q. purchase_pk q = j) qs)"
  using assms by (induction qs) auto

lemma get_purchase_upd:
  "(\<And>q. purchase_pk (f q) = purchase_pk q) \<Longrightarrow>
   get_purchase (upd_purchase k f d) j
     = (if j = k then map_option f (get_purchase d j) else get_purchase d j)"
  by (simp add: get_purchase_def upd_purchase_def find_map_upd)

lemma user_by_discord_id_mem: "user_by_discord_id d a = Some u \<Longrightarrow> u \<in> set (users d)"
  by (auto simp: user_by_discord_id_def find_Some_iff)

lemma get_user_mem: "get_user d k = Some u \<Longrightarrow> u \<in> set (users d) \<and> user_pk u = k"
  by (auto simp: get_user_def find_Some_iff)

lemma get_or_create_user_existing:
  "user_by_discord_id d a = Some u \<Longrightarrow> get_or_create_user d a n = (u, d)"
  by (simp add: get_or_create_user_def)

lemma get_or_create_user_same_tables:
  "get_or_create_user d a n = (u, d1) \<Longrightarrow>
     purchases d1 = purchases d \<and> transactions d1 = transactions d \<and> gifts d1 = gifts d \<and> items d1 = items d"
  by (auto simp: get_or_create_user_def Let_def split: option.splits)

lemmas worker_defs = process_purchase_def claim_purchase_def settle_purchase_def
  fulfill_purchase_def execute_minecraft_command_def required_role_def required_template_def

lemmas store_defs = user_by_discord_id_def get_user_def get_item_def get_purchase_def
  put_user_def upd_purchase_def next_pk_def check_coins_non_negative_def check_purchase_def
  check_gift_def get_or_create_user_def

lemmas example_defs = shop_def steve_def alex_def sword_def vip_def order1_def order2_def
  orphan_def seed_def mc_def all_up_def rcon_down_def

lemmas eval_defs = worker_defs example_defs truthy_def Let_def get_purchase_def
  get_item_def get_user_def upd_purchase_def execute_command_def wait_for_def or_str_def
  or_port_def resolve_command_def process_pending_purchases_def pending_purchases_def

subsection \<open>One purchase in the slash-command worker\<close>

lemma required_template_Some:
  "required_template it = Some t \<Longrightarrow> minecraft_command_template it = Some t"
  by (simp add: required_template_def split: if_splits)

lemma fulfill_purchase_success:
  "fst (snd (fulfill_purchase w k it u d))
     = ((\<forall>role. required_role it = Some role \<longrightarrow> grant_role w (discord_id u) role)
        \<and> (\<forall>t. required_template it = Some t \<longrightarrow>
              execute_command (integration w) (rcon_server w) (resolve_command u t) None None None))"
proof (cases "required_role it")
  case None
  show ?thesis
  proof (cases "required_template it")
    case n: None
    show ?thesis using None n by (simp add: fulfill_purchase_def)
  next
    case (Some t)
    show ?thesis using None Some required_template_Some [OF Some]
      by (simp add: fulfill_purchase_def execute_minecraft_command_def Let_def)
  qed
next
  case role: (Some role)
  show ?thesis
  proof (cases "required_template it")
    case None
    show ?thesis using None role by (simp add: fulfill_purchase_def Let_def)
  next
    case (Some t)
    show ?thesis using role Some required_template_Some [OF Some]
      by (simp add: fulfill_purchase_def execute_minecraft_command_def Let_def)
  qed
qed

lemma fulfill_purchase_events:
  "snd (snd (fulfill_purchase w k it u d))
     = (case required_role it of None \<Rightarrow> [] | Some role \<Rightarrow> [EvAssignRole k role])
       @ (case required_template it of None \<Rightarrow> []
          | Some t \<Rightarrow> [EvExecuteCommand k (resolve_command u t)])"
proof (cases "required_role it")
  case None
  show ?thesis
  proof (cases "required_template it")
    case n: None
    show ?thesis using None n by (simp add: fulfill_purchase_def)
  next
    case (Some t)
    show ?thesis using None Some required_template_Some [OF Some]
      by (simp add: fulfill_purchase_def execute_minecraft_command_def Let_def)
  qed
next
  case role: (Some role)
  show ?thesis
  proof (cases "required_template it")
    case None
    show ?thesis using None role by (simp add: fulfill_purchase_def Let_def)
  next
    case (Some t)
    show ?thesis using role Some required_template_Some [OF Some]
      by (simp add: fulfill_purchase_def execute_minecraft_command_def Let_def)
  qed
qed

lemma execute_minecraft_command_row_kept:
  "get_purchase d k = Some row \<Longrightarrow>
   \<exists>row'. get_purchase (fst (execute_minecraft_command w u it k d)) k = Some row'"
  by (simp add: execute_minecraft_command_def Let_def get_purchase_upd split: option.splits)

lemma fulfill_purchase_row_kept:
  assumes "get_purchase d k = Some row"
  shows "\<exists>row'. get_purchase (fst (fulfill_purchase w k it u d)) k = Some row'"
proof -
  define d1 where "d1 = (case required_role it of
      Some role \<Rightarrow> if grant_role w (discord_id u) role
        then upd_purchase k (\<lambda>q. q\<lparr>discord_role_assigned := True\<rparr>) d else d
    | None \<Rightarrow> d)"
  have a: "\<exists>row'. get_purchase d1 k = Some row'"
    using assms by (simp add: d1_def get_purchase_upd split: option.splits)
  have "fst (fulfill_purchase w k it u d)
      = (case required_template it of Some t \<Rightarrow> fst (execute_minecraft_command w u it k d1)
         | None \<Rightarrow> d1)"
    by (simp add: fulfill_purchase_def d1_def Let_def split: option.splits prod.splits)
  then show ?thesis using a execute_minecraft_command_row_kept [of d1 k _ w u it]
    by (auto split: option.splits)
qed

lemma settle_purchase_status:
  assumes "get_purchase d (purchase_pk p) = Some row"
  shows "map_option status (get_purchase (fst (settle_purchase w p d)) (purchase_pk p))
       = Some (if \<exists>it u. get_item d (item_id p) = Some it \<and> get_user d (user_id p) = Some u
                    \<and> fst (snd (fulfill_purchase w (purchase_pk p) it u d))
               then Fulfilled else Failed)
     \<and> (map_option status (get_purchase (fst (settle_purchase w p d)) (purchase_pk p)) = Some Fulfilled
        \<longrightarrow> map_option fulfilled_at (get_purchase (fst (settle_purchase w p d)) (purchase_pk p))
              = Some (Some (clock w)))"
proof (cases "get_item d (item_id p)")
  case None
  then show ?thesis using assms by (simp add: settle_purchase_def get_purchase_upd)
next
  case it: (Some it)
  show ?thesis
  proof (cases "get_user d (user_id p)")
    case None
    then show ?thesis using assms it by (simp add: settle_purchase_def get_purchase_upd)
  next
    case (Some u)
    obtain d1 ok evs where f: "fulfill_purchase w (purchase_pk p) it u d = (d1, ok, evs)"
      by (metis prod_cases3)
    obtain row' where r: "get_purchase d1 (purchase_pk p) = Some row'"
      using fulfill_purchase_row_kept [OF assms, of w it u] f by auto
    show ?thesis using it Some f r by (simp add: settle_purchase_def get_purchase_upd)
  qed
qed

lemma settle_purchase_events:
  "get_item d (item_id p) = Some it \<Longrightarrow> get_user d (user_id p) = Some u \<Longrightarrow>
   \<exists>c. snd (settle_purchase w p d)
     = snd (snd (fulfill_purchase w (purchase_pk p) it u d)) @ [EvCommit [(purchase_pk p, c)]]"
  by (simp add: settle_purchase_def split: prod.splits)

lemma claim_purchase_row:
  "get_purchase d (purchase_pk p) = Some row \<Longrightarrow>
   get_purchase (fst (claim_purchase p d)) (purchase_pk p) = Some (row\<lparr>status := Processing\<rparr>)"
  by (simp add: claim_purchase_def get_purchase_upd)

lemma claim_purchase_lookups [simp]:
  "get_item (fst (claim_purchase p d)) = get_item d"
  "get_user (fst (claim_purchase p d)) = get_user d"
  "snd (claim_purchase p d) = [EvCommit [(purchase_pk p, Processing)]]"
  by (simp_all add: claim_purchase_def)

lemma process_purchase_split:
  "fst (process_purchase w p d) = fst (settle_purchase w p (fst (claim_purchase p d)))"
  "snd (process_purchase w p d)
     = EvCommit [(purchase_pk p, Processing)] # snd (settle_purchase w p (fst (claim_purchase p d)))"
  by (simp_all add: process_purchase_def claim_purchase_def split: prod.splits)

lemma process_purchase_other_row:
  "j \<noteq> purchase_pk p \<Longrightarrow> get_purchase (fst (process_purchase w p d)) j = get_purchase d j"
  by (simp add: worker_defs Let_def get_purchase_upd split: option.splits prod.splits)

lemma process_purchase_keys:
  "e \<in> set (snd (process_purchase w p d)) \<Longrightarrow> event_keys e = [purchase_pk p]"
  by (auto simp: worker_defs Let_def split: option.splits prod.splits if_splits)

lemma process_purchase_no_notify:
  "e \<in> set (snd (process_purchase w p d)) \<Longrightarrow> \<not> is_notify e"
  by (auto simp: worker_defs Let_def split: option.splits prod.splits if_splits)

lemma process_purchase_claim_first: "claim_first C (snd (process_purchase w p d))"
  by (auto simp: worker_defs Let_def split: option.splits prod.splits if_splits)

subsection \<open>A whole sweep\<close>

lemma claim_first_mono:
  "claim_first C es \<Longrightarrow> set C \<subseteq> set C' \<Longrightarrow> claim_first C' es"
proof (induction C es arbitrary: C' rule: claim_first.induct)
  case (2 claimed rows evs)
  have "set (map fst (filter (\<lambda>r. snd r = Processing) rows) @ claimed)
      \<subseteq> set (map fst (filter (\<lambda>r. snd r = Processing) rows) @ C')"
    using "2.prems"(2) by auto
  with 2 show ?case by simp
qed auto

lemma claim_first_append:
  "claim_first C xs \<Longrightarrow> (\<And>C'. claim_first C' ys) \<Longrightarrow> claim_first C (xs @ ys)"
  by (induction C xs rule: claim_first.induct) auto

lemma sweep_claim_first: "claim_first C (snd (sweep w ps d))"
proof (induction ps arbitrary: d C)
  case Nil
  show ?case by simp
next
  case (Cons p ps)
  obtain d1 evs1 where a: "process_purchase w p d = (d1, evs1)" by force
  obtain d2 evs2 where b: "sweep w ps d1 = (d2, evs2)" by force
  have "claim_first C evs1" using process_purchase_claim_first [of C w p d] a by simp
  moreover have "\<And>C'. claim_first C' evs2" using Cons.IH [of _ d1] b by simp
  ultimately show ?case using a b by (simp add: claim_first_append)
qed

lemma sweep_keys:
  "e \<in> set (snd (sweep w ps d)) \<Longrightarrow> k \<in> set (event_keys e) \<Longrightarrow> k \<in> purchase_pk ` set ps"
proof (induction ps arbitrary: d)
  case Nil
  then show ?case by simp
next
  case (Cons p ps)
  obtain d1 evs1 where a: "process_purchase w p d = (d1, evs1)" by force
  obtain d2 evs2 where b: "sweep w ps d1 = (d2, evs2)" by force
  from Cons.prems(1) a b have "e \<in> set evs1 \<or> e \<in> set evs2" by simp
  then show ?case
  proof
    assume "e \<in> set evs1"
    then have "event_keys e = [purchase_pk p]"
      using process_purchase_keys [of e w p d] a by simp
    with Cons.prems(2) show ?thesis by simp
  next
    assume "e \<in> set evs2"
    then have "k \<in> purchase_pk ` set ps"
      using Cons.IH [of d1] b Cons.prems(2) by simp
    then show ?thesis by simp
  qed
qed

lemma sweep_no_notify: "e \<in> set (snd (sweep w ps d)) \<Longrightarrow> \<not> is_notify e"
proof (induction ps arbitrary: d)
  case Nil
  then show ?case by simp
next
  case (Cons p ps)
  obtain d1 evs1 where a: "process_purchase w p d = (d1, evs1)" by force
  obtain d2 evs2 where b: "sweep w ps d1 = (d2, evs2)" by force
  from Cons.prems a b have "e \<in> set evs1 \<or> e \<in> set evs2" by simp
  then show ?case
    using process_purchase_no_notify [of e w p d] a Cons.IH [of d1] b by auto
qed

lemma sweep_other_row:
  "k \<notin> purchase_pk ` set ps \<Longrightarrow> get_purchase (fst (sweep w ps d)) k = get_purchase d k"
proof (induction ps arbitrary: d)
  case Nil
  show ?case by simp
next
  case (Cons p ps)
  obtain d1 evs1 where a: "process_purchase w p d = (d1, evs1)" by force
  obtain d2 evs2 where b: "sweep w ps d1 = (d2, evs2)" by force
  have "get_purchase d1 k = get_purchase d k"
    using process_purchase_other_row [of k p w d] a Cons.prems by simp
  moreover have "get_purchase d2 k = get_purchase d1 k"
    using Cons.IH [of d1] b Cons.prems by simp
  ultimately show ?case using a b by simp
qed

subsection \<open>The example worlds\<close>

lemma rcon_down_fails:
  "\<not> execute_command (integration rcon_down) (rcon_server rcon_down) c None None None"
  by (simp add: execute_command_def rcon_down_def wait_for_def or_str_def or_port_def mc_def)

lemma all_up_executes:
  "execute_command (integration all_up) (rcon_server all_up) c None None None"
  by (simp add: execute_command_def all_up_def wait_for_def or_str_def or_port_def mc_def)

subsection \<open>The ledger\<close>

lemma ledger_sum_append:
  "ledger_sum (ts @ new) k = ledger_sum ts k + ledger_sum new k"
  by (simp add: ledger_sum_def)

lemma ledger_sum_single:
  "ledger_sum [t] k = (if t_user_id t = k then amount t else 0)"
  by (simp add: ledger_sum_def)

lemma ledger_sum_foreign:
  "list_all (\<lambda>t. t_user_id t \<in> K) ts \<Longrightarrow> k \<notin> K \<Longrightarrow> ledger_sum ts k = 0"
  by (induction ts) (auto simp: ledger_sum_def)

lemma rows_consistent_post:
  assumes c: "rows_consistent us ts" and u: "u \<in> set us" and k: "user_pk u = k"
    and t: "t_user_id t = k" and v: "user_pk v = k" "coins v = coins u + amount t"
  shows "rows_consistent (map (\<lambda>x. if user_pk x = k then v else x) us) (ts @ [t])"
proof -
  have cu: "coins u = ledger_sum ts k"
    using c u k by (auto simp: rows_consistent_def list_all_iff)
  have "\<And>x. user_pk (if user_pk x = k then v else x) = user_pk x"
    using v(1) by simp
  then have pk: "map user_pk (map (\<lambda>x. if user_pk x = k then v else x) us) = map user_pk us"
    by (simp add: comp_def)
  have old: "\<And>x. x \<in> set us \<Longrightarrow> coins x = ledger_sum ts (user_pk x)"
    using c by (simp add: rows_consistent_def list_all_iff)
  have "coins (if user_pk x = k then v else x)
          = ledger_sum (ts @ [t]) (user_pk (if user_pk x = k then v else x))"
    if "x \<in> set us" for x
  proof (cases "user_pk x = k")
    case True
    have "coins v = ledger_sum ts k + amount t" using v(2) cu by simp
    then show ?thesis using True t v(1) by (simp add: ledger_sum_append ledger_sum_single)
  next
    case False
    then show ?thesis using old [OF that] t by (simp add: ledger_sum_append ledger_sum_single)
  qed
  then have "list_all (\<lambda>x. coins x = ledger_sum (ts @ [t]) (user_pk x))
          (map (\<lambda>x. if user_pk x = k then v else x) us)"
    unfolding list_all_iff set_map by blast
  moreover have "t_user_id t \<in> set (map user_pk us)"
    using u k t by force
  then have "list_all (\<lambda>t. t_user_id t \<in> set (map user_pk us)) (ts @ [t])"
    using c by (simp add: rows_consistent_def)
  ultimately show ?thesis unfolding rows_consistent_def pk by blast
qed

lemma ledger_consistent_post:
  assumes "ledger_consistent d" and "u \<in> set (users d)"
    and "t_user_id t = user_pk u" and "user_pk v = user_pk u" and "coins v = coins u + amount t"
  shows "ledger_consistent ((put_user v d)\<lparr>transactions := transactions d @ [t]\<rparr>)"
  using rows_consistent_post [of "users d" "transactions d" u "user_pk u" t v] assms
  by (simp add: ledger_consistent_def put_user_def)

lemma get_or_create_user_consistent:
  assumes "ledger_consistent d" and "get_or_create_user d a n = (u, d1)"
  shows "ledger_consistent d1 \<and> u \<in> set (users d1) \<and> transactions d1 = transactions d"
proof (cases "user_by_discord_id d a")
  case (Some x)
  then show ?thesis using assms user_by_discord_id_mem [OF Some]
    by (simp add: get_or_create_user_def)
next
  case None
  let ?k = "next_pk (map user_pk (users d))"
  have fresh: "?k \<notin> set (map user_pk (users d))" by (rule next_pk_fresh)
  have fk: "list_all (\<lambda>t. t_user_id t \<in> set (map user_pk (users d))) (transactions d)"
    using assms(1) by (simp add: ledger_consistent_def rows_consistent_def)
  have z: "ledger_sum (transactions d) ?k = 0"
    using ledger_sum_foreign [OF fk fresh] .
  have u: "u = \<lparr>user_pk = ?k, discord_id = a, username = n, minecraft_uuid = None, coins = 0\<rparr>"
    and d1: "d1 = d\<lparr>users := users d @ [u]\<rparr>"
    using assms(2) None by (auto simp: get_or_create_user_def Let_def)
  have "rows_consistent (users d @ [u]) (transactions d)"
    using assms(1) z u
    by (auto simp: ledger_consistent_def rows_consistent_def list_all_iff)
  then show ?thesis using d1 by (simp add: ledger_consistent_def)
qed

lemma balance_is_ledger:
  assumes "ledger_consistent d"
  shows "balance_of d k = ledger_sum (transactions d) k"
proof (cases "get_user d k")
  case None
  then have "k \<notin> set (map user_pk (users d))"
    by (auto simp: get_user_def find_None_iff)
  moreover have "list_all (\<lambda>t. t_user_id t \<in> set (map user_pk (users d))) (transactions d)"
    using assms by (simp add: ledger_consistent_def rows_consistent_def)
  ultimately have "ledger_sum (transactions d) k = 0" by (rule ledger_sum_foreign [rotated])
  then show ?thesis using None by (simp add: balance_of_def)
next
  case (Some u)
  then have "u \<in> set (users d)" "user_pk u = k" using get_user_mem by blast+
  then have "coins u = ledger_sum (transactions d) k"
    using assms by (auto simp: ledger_consistent_def rows_consistent_def list_all_iff)
  then show ?thesis using Some by (simp add: balance_of_def)
qed

lemma get_or_create_user_users:
  "get_or_create_user d a n = (u, d1) \<Longrightarrow> set (users d) \<subseteq> set (users d1)"
  by (auto simp: get_or_create_user_def Let_def split: option.splits)

lemma get_or_create_user_non_negative:
  "get_or_create_user d a n = (u, d1) \<Longrightarrow> coins_non_negative d \<Longrightarrow> coins_non_negative d1"
  by (auto simp: get_or_create_user_def Let_def coins_non_negative_def
      check_coins_non_negative_def split: option.splits)

lemma put_user_non_negative:
  "coins_non_negative d \<Longrightarrow> 0 \<le> coins v \<Longrightarrow> coins_non_negative (put_user v d)"
  by (auto simp: coins_non_negative_def put_user_def list_all_iff check_coins_non_negative_def)

lemma ledger_consistent_cong:
  "users d' = users d \<Longrightarrow> transactions d' = transactions d \<Longrightarrow>
   ledger_consistent d' = ledger_consistent d"
  by (simp add: ledger_consistent_def)

lemma coins_non_negative_cong:
  "users d' = users d \<Longrightarrow> coins_non_negative d' = coins_non_negative d"
  by (simp add: coins_non_negative_def)

lemma put_user_keeps_others:
  "r \<in> set (users d) \<Longrightarrow> user_pk r \<noteq> user_pk v \<Longrightarrow> r \<in> set (users (put_user v d))"
  by (auto simp: put_user_def)

lemma put_user_transactions [simp]: "transactions (put_user v d) = transactions d"
  by (simp add: put_user_def)

lemma single_post_consistent:
  assumes "ledger_consistent d" and "u \<in> set (users d)"
    and "user_pk v = user_pk u" and "t_user_id t = user_pk u" and "coins v = coins u + amount t"
    and "users d' = users (put_user v d)" and "transactions d' = transactions d @ [t]"
  shows "ledger_consistent d'"
proof -
  have "ledger_consistent ((put_user v d)\<lparr>transactions := transactions d @ [t]\<rparr>)"
    using assms(1,2,4,3,5) by (rule ledger_consistent_post)
  moreover have "ledger_consistent d'
      = ledger_consistent ((put_user v d)\<lparr>transactions := transactions d @ [t]\<rparr>)"
    using assms(6,7) by (intro ledger_consistent_cong) simp_all
  ultimately show ?thesis by simp
qed

lemma single_post_non_negative:
  "coins_non_negative d \<Longrightarrow> 0 \<le> coins v \<Longrightarrow> users d' = users (put_user v d) \<Longrightarrow>
   coins_non_negative d'"
  using put_user_non_negative [of d v] by (simp add: coins_non_negative_def)

lemma appends_at_most_one:
  assumes "ts' = ts \<or> (\<exists>t. ts' = ts @ [t])"
  shows "\<exists>new. ts' = ts @ new \<and> (\<forall>k. length (filter (\<lambda>t. t_user_id t = k) new) \<le> 1)"
  using assms
proof
  assume "ts' = ts"
  then have "ts' = ts @ [] \<and> (\<forall>k. length (filter (\<lambda>t. t_user_id t = k) []) \<le> 1)"
    by simp
  then show ?thesis by (rule exI)
next
  assume "\<exists>t. ts' = ts @ [t]"
  then obtain t where "ts' = ts @ [t]" by blast
  then have "ts' = ts @ [t] \<and> (\<forall>k. length (filter (\<lambda>t. t_user_id t = k) [t]) \<le> 1)"
    by simp
  then show ?thesis by (rule exI)
qed

subsection \<open>The result of each balance-mutating operation\<close>

text \<open>
  Each operation returns the store it was given, or the store with the user it created, or
  that store with one user row replaced and one transaction appended (two rows and two
  transactions for a gift); the replaced row carries the old balance plus the amount of the
  transaction and passed the check \<^verbatim>\<open>coins >= 0\<close>.
\<close>

lemma buy_command_shape:
  "fst (buy_command app now d author item_arg qty) = d
   \<or> (\<exists>u v t p. u \<in> set (users d) \<and> user_pk v = user_pk u \<and> t_user_id t = user_pk u
         \<and> coins v = coins u + amount t \<and> 0 \<le> coins v
         \<and> fst (buy_command app now d author item_arg qty)
             = (put_user v d)\<lparr>purchases := purchases d @ [p], transactions := transactions d @ [t]\<rparr>)"
proof (cases "user_by_discord_id d author")
  case None
  then show ?thesis by (simp add: buy_command_def)
next
  case u: (Some u)
  show ?thesis
  proof (cases "find (\<lambda>i. int (item_pk i) = item_arg \<and> is_available i) (items d)")
    case None
    then show ?thesis using u by (simp add: buy_command_def)
  next
    case (Some it)
    let ?v = "u\<lparr>coins := coins u - price it * qty\<rparr>"
    let ?p = "\<lparr>purchase_pk = next_pk (map purchase_pk (purchases d)),
                      user_id = user_pk u, item_id = item_pk it, quantity = qty,
                      total_cost = price it * qty, status = Pending, fulfilled_at = None,
                      minecraft_command = None, discord_role_assigned = False\<rparr>"
    let ?t = "\<lparr>t_user_id = user_pk u, transaction_type = Purchase,
                      amount = - (price it * qty),
                      description = ''Purchased '' @ str_int qty @ ''x '' @ item_name it,
                      t_created_at = now,
                      reference_id = Some (''purchase_'' @ str_pk unflushed_pk)\<rparr>"
    show ?thesis
    proof (cases "app \<and> 0 < qty \<and> \<not> coins u < price it * qty
                  \<and> check_coins_non_negative ?v \<and> check_purchase ?p")
      case False
      then have "fst (buy_command app now d author item_arg qty) = d"
        using u Some by (auto simp: buy_command_def Let_def)
      then show ?thesis by blast
    next
      case True
      then have "fst (buy_command app now d author item_arg qty)
             = (put_user ?v d)\<lparr>purchases := purchases d @ [?p], transactions := transactions d @ [?t]\<rparr>"
        using u Some by (simp add: buy_command_def Let_def)
      moreover have "u \<in> set (users d)" using u by (rule user_by_discord_id_mem)
      moreover have "user_pk ?v = user_pk u" "t_user_id ?t = user_pk u"
        "coins ?v = coins u + amount ?t" by simp_all
      moreover have "0 \<le> coins ?v" using True by (simp add: check_coins_non_negative_def)
      ultimately show ?thesis by blast
    qed
  qed
qed

lemma update_user_coins_shape:
  "fst (update_user_coins now d k amount_field description_field) = d
   \<or> (\<exists>u v t. u \<in> set (users d) \<and> user_pk v = user_pk u \<and> t_user_id t = user_pk u
         \<and> coins v = coins u + amount t \<and> 0 \<le> coins v
         \<and> fst (update_user_coins now d k amount_field description_field)
             = (put_user v d)\<lparr>transactions := transactions d @ [t]\<rparr>)"
proof (cases "update_user_coins_session now d k amount_field description_field")
  case None
  then show ?thesis by (simp add: update_user_coins_def)
next
  case (Some s)
  obtain v t where s: "s = (v, t)" by force
  show ?thesis
  proof (cases "check_coins_non_negative v")
    case False
    then show ?thesis using Some s by (simp add: update_user_coins_def)
  next
    case True
    obtain u where u: "get_user d k = Some u"
      using Some by (auto simp: update_user_coins_session_def Let_def split: option.splits)
    have "user_pk v = user_pk u" "t_user_id t = user_pk u" "coins v = coins u + amount t"
      using Some s u by (auto simp: update_user_coins_session_def Let_def)
    moreover have "u \<in> set (users d)" using get_user_mem [OF u] by simp
    moreover have "0 \<le> coins v" using True by (simp add: check_coins_non_negative_def)
    moreover have "fst (update_user_coins now d k amount_field description_field)
             = (put_user v d)\<lparr>transactions := transactions d @ [t]\<rparr>"
      using Some s True by (simp add: update_user_coins_def)
    ultimately show ?thesis by blast
  qed
qed

lemma process_coin_earning_shape:
  "\<exists>u d1. get_or_create_user d author display_name = (u, d1)
     \<and> (process_coin_earning app py_int now d author display_name channel = d
        \<or> process_coin_earning app py_int now d author display_name channel = d1
        \<or> (\<exists>v t. user_pk v = user_pk u \<and> t_user_id t = user_pk u
              \<and> coins v = coins u + amount t \<and> 0 \<le> coins v
              \<and> process_coin_earning app py_int now d author display_name channel
                  = (put_user v d1)\<lparr>transactions := transactions d1 @ [t]\<rparr>))"
proof -
  obtain u d1 where g: "get_or_create_user d author display_name = (u, d1)" by force
  obtain c m x where l: "load_config py_int d1 = (c, m, x)" by (metis prod_cases3)
  define earned where "earned = filter (\<lambda>t. t_user_id t = user_pk u \<and> transaction_type t = Earn)
                       (transactions d1)"
  define today where "today = sum_list (map amount
      (filter (\<lambda>t. now - now mod 86400 \<le> t_created_at t) earned))"
  define v where "v = u\<lparr>coins := coins u + min c (x - today)\<rparr>"
  define t where "t = \<lparr>t_user_id = user_pk u, transaction_type = Earn,
                        amount = min c (x - today),
                        description = ''Earned from message in #'' @ channel,
                        t_created_at = now, reference_id = None\<rparr>"
  have r: "process_coin_earning app py_int now d author display_name channel
      = (if \<not> app then d
         else if earned \<noteq> [] \<and> int now - int (fold max (map t_created_at earned) 0) < m then d1
         else if x \<le> today then d1
         else if check_coins_non_negative v
              then (put_user v d1)\<lparr>transactions := transactions d1 @ [t]\<rparr> else d1)"
    by (simp only: process_coin_earning_def Let_def g l prod.case earned_def today_def v_def t_def)
  have f: "user_pk v = user_pk u" "t_user_id t = user_pk u" "coins v = coins u + amount t"
    by (simp_all add: v_def t_def)
  have n: "check_coins_non_negative v \<Longrightarrow> 0 \<le> coins v"
    by (simp add: check_coins_non_negative_def)
  have "process_coin_earning app py_int now d author display_name channel = d
        \<or> process_coin_earning app py_int now d author display_name channel = d1
        \<or> (check_coins_non_negative v
            \<and> process_coin_earning app py_int now d author display_name channel
                  = (put_user v d1)\<lparr>transactions := transactions d1 @ [t]\<rparr>)"
    unfolding r by simp
  then have "process_coin_earning app py_int now d author display_name channel = d
        \<or> process_coin_earning app py_int now d author display_name channel = d1
        \<or> (\<exists>v t. user_pk v = user_pk u \<and> t_user_id t = user_pk u
              \<and> coins v = coins u + amount t \<and> 0 \<le> coins v
              \<and> process_coin_earning app py_int now d author display_name channel
                  = (put_user v d1)\<lparr>transactions := transactions d1 @ [t]\<rparr>)"
    using f n by blast
  then show ?thesis using g by blast
qed

lemma gift_command_shape:
  "fst (gift_command app now d author author_name target target_name is_bot amt msg) = d
   \<or> (\<exists>s r d1 vs vr t1 t2 g. s \<in> set (users d)
         \<and> get_or_create_user d target target_name = (r, d1)
         \<and> user_pk s \<noteq> user_pk r \<and> user_pk vs = user_pk s \<and> user_pk vr = user_pk r
         \<and> t_user_id t1 = user_pk s \<and> t_user_id t2 = user_pk r
         \<and> coins vs = coins s + amount t1 \<and> coins vr = coins r + amount t2
         \<and> 0 \<le> coins vs \<and> 0 \<le> coins vr
         \<and> fst (gift_command app now d author author_name target target_name is_bot amt msg)
             = (put_user vr (put_user vs d1))\<lparr>gifts := gifts d1 @ [g],
                  transactions := transactions d1 @ [t1, t2]\<rparr>)"
proof (cases "user_by_discord_id d author")
  case None
  then show ?thesis by (simp add: gift_command_def)
next
  case s: (Some s)
  obtain r d1 where g: "get_or_create_user d target target_name = (r, d1)" by force
  define gift_row where "gift_row = \<lparr>gift_pk = next_pk (map gift_pk (gifts d1)),
                  sender_id = user_pk s, recipient_id = user_pk r,
                  gift_amount = amt, message = msg, gift_status = GiftCompleted,
                  processed_at = Some now\<rparr>"
  define vs where "vs = s\<lparr>coins := coins s - amt\<rparr>"
  define vr where "vr = r\<lparr>coins := coins r + amt\<rparr>"
  define t1 where "t1 = \<lparr>t_user_id = user_pk s, transaction_type = GiftSent,
                  amount = - amt, description = ''Gift sent to '' @ target_name,
                  t_created_at = now,
                  reference_id = Some (''gift_'' @ str_pk unflushed_pk)\<rparr>"
  define t2 where "t2 = \<lparr>t_user_id = user_pk r,
                  transaction_type = GiftReceived, amount = amt,
                  description = ''Gift received from '' @ author_name, t_created_at = now,
                  reference_id = Some (''gift_'' @ str_pk unflushed_pk)\<rparr>"
  define go where "go = (app \<and> \<not> amt \<le> 0 \<and> target \<noteq> author \<and> \<not> is_bot \<and> \<not> coins s < amt
      \<and> check_coins_non_negative vs \<and> check_coins_non_negative vr \<and> check_gift gift_row)"
  have r: "fst (gift_command app now d author author_name target target_name is_bot amt msg)
      = (if go then (put_user vr (put_user vs d1))\<lparr>gifts := gifts d1 @ [gift_row],
                        transactions := transactions d1 @ [t1, t2]\<rparr> else d)"
    using s g by (simp add: gift_command_def Let_def go_def gift_row_def vs_def vr_def t1_def t2_def)
  show ?thesis
  proof (cases go)
    case False
    then show ?thesis using r by simp
  next
    case True
    have "s \<in> set (users d)" using s by (rule user_by_discord_id_mem)
    moreover have "user_pk s \<noteq> user_pk r"
      using True by (simp add: go_def check_gift_def gift_row_def)
    moreover have "user_pk vs = user_pk s" "user_pk vr = user_pk r"
      "t_user_id t1 = user_pk s" "t_user_id t2 = user_pk r"
      "coins vs = coins s + amount t1" "coins vr = coins r + amount t2"
      by (simp_all add: vs_def vr_def t1_def t2_def)
    moreover have "0 \<le> coins vs" "0 \<le> coins vr"
      using True by (simp_all add: go_def check_coins_non_negative_def)
    ultimately show ?thesis using r True g by (intro disjI2 exI [of _ s] exI [of _ r] exI [of _ d1]
      exI [of _ vs] exI [of _ vr] exI [of _ t1] exI [of _ t2] exI [of _ gift_row]) simp
  qed
qed

lemma buy_command_consistent:
  assumes "ledger_consistent d"
  shows "ledger_consistent (fst (buy_command app now d author item_arg qty))"
  using buy_command_shape [of app now d author item_arg qty]
proof (elim disjE exE conjE)
  assume "fst (buy_command app now d author item_arg qty) = d"
  then show ?thesis using assms by simp
next
  fix u v t p
  assume a: "u \<in> set (users d)" and b: "user_pk v = user_pk u"
    and c: "t_user_id t = user_pk u" and e: "coins v = coins u + amount t"
    and r: "fst (buy_command app now d author item_arg qty)
      = (put_user v d)\<lparr>purchases := purchases d @ [p], transactions := transactions d @ [t]\<rparr>"
  show ?thesis
    by (rule single_post_consistent [OF assms a b c e]) (simp_all add: r)
qed

lemma update_user_coins_consistent:
  assumes "ledger_consistent d"
  shows "ledger_consistent (fst (update_user_coins now d k amount_field description_field))"
  using update_user_coins_shape [of now d k amount_field description_field]
proof (elim disjE exE conjE)
  assume "fst (update_user_coins now d k amount_field description_field) = d"
  then show ?thesis using assms by simp
next
  fix u v t
  assume a: "u \<in> set (users d)" and b: "user_pk v = user_pk u"
    and c: "t_user_id t = user_pk u" and e: "coins v = coins u + amount t"
    and r: "fst (update_user_coins now d k amount_field description_field)
      = (put_user v d)\<lparr>transactions := transactions d @ [t]\<rparr>"
  show ?thesis
    by (rule single_post_consistent [OF assms a b c e]) (simp_all add: r)
qed

lemma process_coin_earning_consistent:
  assumes "ledger_consistent d"
  shows "ledger_consistent (process_coin_earning app py_int now d author display_name channel)"
proof -
  obtain u d1 where g: "get_or_create_user d author display_name = (u, d1)"
    and c: "process_coin_earning app py_int now d author display_name channel = d
        \<or> process_coin_earning app py_int now d author display_name channel = d1
        \<or> (\<exists>v t. user_pk v = user_pk u \<and> t_user_id t = user_pk u
              \<and> coins v = coins u + amount t \<and> 0 \<le> coins v
              \<and> process_coin_earning app py_int now d author display_name channel
                  = (put_user v d1)\<lparr>transactions := transactions d1 @ [t]\<rparr>)"
    using process_coin_earning_shape [of d author display_name app py_int now channel] by blast
  have d1: "ledger_consistent d1" and u: "u \<in> set (users d1)"
    using get_or_create_user_consistent [OF assms g] by simp_all
  from c show ?thesis
  proof (elim disjE exE conjE)
    assume "process_coin_earning app py_int now d author display_name channel = d"
    then show ?thesis using assms by simp
  next
    assume "process_coin_earning app py_int now d author display_name channel = d1"
    then show ?thesis using d1 by simp
  next
    fix v t
    assume b: "user_pk v = user_pk u" and c: "t_user_id t = user_pk u"
      and e: "coins v = coins u + amount t"
      and r: "process_coin_earning app py_int now d author display_name channel
                  = (put_user v d1)\<lparr>transactions := transactions d1 @ [t]\<rparr>"
    show ?thesis
      by (rule single_post_consistent [OF d1 u b c e]) (simp_all add: r)
  qed
qed

lemma gift_command_consistent:
  assumes "ledger_consistent d"
  shows "ledger_consistent
           (fst (gift_command app now d author author_name target target_name is_bot amt msg))"
  using gift_command_shape [of app now d author author_name target target_name is_bot amt msg]
proof (elim disjE exE conjE)
  assume "fst (gift_command app now d author author_name target target_name is_bot amt msg) = d"
  then show ?thesis using assms by simp
next
  fix s r d1 vs vr t1 t2 g
  assume s: "s \<in> set (users d)" and g: "get_or_create_user d target target_name = (r, d1)"
    and ne: "user_pk s \<noteq> user_pk r"
    and vs: "user_pk vs = user_pk s" "t_user_id t1 = user_pk s" "coins vs = coins s + amount t1"
    and vr: "user_pk vr = user_pk r" "t_user_id t2 = user_pk r" "coins vr = coins r + amount t2"
    and res: "fst (gift_command app now d author author_name target target_name is_bot amt msg)
             = (put_user vr (put_user vs d1))\<lparr>gifts := gifts d1 @ [g],
                  transactions := transactions d1 @ [t1, t2]\<rparr>"
  have d1: "ledger_consistent d1" and r: "r \<in> set (users d1)"
    using get_or_create_user_consistent [OF assms g] by simp_all
  have s1: "s \<in> set (users d1)" using s get_or_create_user_users [OF g] by blast
  let ?mid = "(put_user vs d1)\<lparr>transactions := transactions d1 @ [t1]\<rparr>"
  have mid: "ledger_consistent ?mid"
    using d1 s1 vs by (rule single_post_consistent [of d1 s vs t1]) simp_all
  have "r \<in> set (users (put_user vs d1))"
    using r ne vs(1) by (intro put_user_keeps_others) simp_all
  then have rm: "r \<in> set (users ?mid)" by simp
  show ?thesis
    using mid rm vr
    by (rule single_post_consistent [of ?mid r vr t2]) (simp_all add: res put_user_def)
qed

lemma operation_consistent:
  "ledger_consistent d \<Longrightarrow> ledger_consistent (apply_operation app py_int now op d)"
  by (cases op)
     (simp_all add: process_coin_earning_consistent buy_command_consistent
        gift_command_consistent update_user_coins_consistent)

lemma operation_non_negative:
  assumes "coins_non_negative d"
  shows "coins_non_negative (apply_operation app py_int now op d)"
proof (cases op)
  case (MessageEarn author display_name channel)
  obtain u d1 where g: "get_or_create_user d author display_name = (u, d1)"
    and c: "process_coin_earning app py_int now d author display_name channel = d
        \<or> process_coin_earning app py_int now d author display_name channel = d1
        \<or> (\<exists>v t. user_pk v = user_pk u \<and> t_user_id t = user_pk u
              \<and> coins v = coins u + amount t \<and> 0 \<le> coins v
              \<and> process_coin_earning app py_int now d author display_name channel
                  = (put_user v d1)\<lparr>transactions := transactions d1 @ [t]\<rparr>)"
    using process_coin_earning_shape [of d author display_name app py_int now channel] by blast
  have d1: "coins_non_negative d1"
    using get_or_create_user_non_negative [OF g assms] .
  from c have "coins_non_negative (process_coin_earning app py_int now d author display_name channel)"
  proof (elim disjE exE conjE)
    assume "process_coin_earning app py_int now d author display_name channel = d"
    then show ?thesis using assms by simp
  next
    assume "process_coin_earning app py_int now d author display_name channel = d1"
    then show ?thesis using d1 by simp
  next
    fix v t
    assume n: "0 \<le> coins v"
      and r: "process_coin_earning app py_int now d author display_name channel
                  = (put_user v d1)\<lparr>transactions := transactions d1 @ [t]\<rparr>"
    show ?thesis by (rule single_post_non_negative [OF d1 n]) (simp add: r)
  qed
  then show ?thesis using MessageEarn by simp
next
  case (BuyItem author item_arg qty)
  have "coins_non_negative (fst (buy_command app now d author item_arg qty))"
    using buy_command_shape [of app now d author item_arg qty]
  proof (elim disjE exE conjE)
    assume "fst (buy_command app now d author item_arg qty) = d"
    then show ?thesis using assms by simp
  next
    fix u v t p
    assume n: "0 \<le> coins v"
      and r: "fst (buy_command app now d author item_arg qty)
        = (put_user v d)\<lparr>purchases := purchases d @ [p], transactions := transactions d @ [t]\<rparr>"
    show ?thesis by (rule single_post_non_negative [OF assms n]) (simp add: r)
  qed
  then show ?thesis using BuyItem by simp
next
  case (GiftTransfer author author_name target target_name is_bot amt msg)
  have "coins_non_negative
          (fst (gift_command app now d author author_name target target_name is_bot amt msg))"
    using gift_command_shape [of app now d author author_name target target_name is_bot amt msg]
  proof (elim disjE exE conjE)
    assume "fst (gift_command app now d author author_name target target_name is_bot amt msg) = d"
    then show ?thesis using assms by simp
  next
    fix s r d1 vs vr t1 t2 g
    assume g: "get_or_create_user d target target_name = (r, d1)"
      and n: "0 \<le> coins vs" "0 \<le> coins vr"
      and res: "fst (gift_command app now d author author_name target target_name is_bot amt msg)
             = (put_user vr (put_user vs d1))\<lparr>gifts := gifts d1 @ [g],
                  transactions := transactions d1 @ [t1, t2]\<rparr>"
    have "coins_non_negative d1" using get_or_create_user_non_negative [OF g assms] .
    then have "coins_non_negative (put_user vs d1)" using n(1) by (rule put_user_non_negative)
    then show ?thesis by (rule single_post_non_negative [OF _ n(2)]) (simp add: res)
  qed
  then show ?thesis using GiftTransfer by simp
next
  case (AdminAdjust k amount_field description_field)
  have "coins_non_negative (fst (update_user_coins now d k amount_field description_field))"
    using update_user_coins_shape [of now d k amount_field description_field]
  proof (elim disjE exE conjE)
    assume "fst (update_user_coins now d k amount_field description_field) = d"
    then show ?thesis using assms by simp
  next
    fix u v t
    assume n: "0 \<le> coins v"
      and r: "fst (update_user_coins now d k amount_field description_field)
        = (put_user v d)\<lparr>transactions := transactions d @ [t]\<rparr>"
    show ?thesis by (rule single_post_non_negative [OF assms n]) (simp add: r)
  qed
  then show ?thesis using AdminAdjust by simp
qed

lemma operation_appends:
  "\<exists>new. transactions (apply_operation app py_int now op d) = transactions d @ new
     \<and> (\<forall>k. length (filter (\<lambda>t. t_user_id t = k) new) \<le> 1)"
proof (cases op)
  case (MessageEarn author display_name channel)
  obtain u d1 where g: "get_or_create_user d author display_name = (u, d1)"
    and c: "process_coin_earning app py_int now d author display_name channel = d
        \<or> process_coin_earning app py_int now d author display_name channel = d1
        \<or> (\<exists>v t. user_pk v = user_pk u \<and> t_user_id t = user_pk u
              \<and> coins v = coins u + amount t \<and> 0 \<le> coins v
              \<and> process_coin_earning app py_int now d author display_name channel
                  = (put_user v d1)\<lparr>transactions := transactions d1 @ [t]\<rparr>)"
    using process_coin_earning_shape [of d author display_name app py_int now channel] by blast
  have t1: "transactions d1 = transactions d"
    using get_or_create_user_same_tables [OF g] by simp
  from c have "transactions (process_coin_earning app py_int now d author display_name channel)
       = transactions d
     \<or> (\<exists>t. transactions (process_coin_earning app py_int now d author display_name channel)
       = transactions d @ [t])"
    using t1 by auto
  then show ?thesis unfolding MessageEarn apply_operation.simps by (rule appends_at_most_one)
next
  case (BuyItem author item_arg qty)
  have "transactions (fst (buy_command app now d author item_arg qty)) = transactions d
     \<or> (\<exists>t. transactions (fst (buy_command app now d author item_arg qty)) = transactions d @ [t])"
    using buy_command_shape [of app now d author item_arg qty] by auto
  then show ?thesis unfolding BuyItem apply_operation.simps by (rule appends_at_most_one)
next
  case (AdminAdjust k amount_field description_field)
  have "transactions (fst (update_user_coins now d k amount_field description_field)) = transactions d
     \<or> (\<exists>t. transactions (fst (update_user_coins now d k amount_field description_field))
            = transactions d @ [t])"
    using update_user_coins_shape [of now d k amount_field description_field] by auto
  then show ?thesis unfolding AdminAdjust apply_operation.simps by (rule appends_at_most_one)
next
  case (GiftTransfer author author_name target target_name is_bot amt msg)
  from gift_command_shape [of app now d author author_name target target_name is_bot amt msg]
  have "\<exists>new. transactions (fst (gift_command app now d author author_name target target_name
                 is_bot amt msg)) = transactions d @ new
     \<and> (\<forall>k. length (filter (\<lambda>t. t_user_id t = k) new) \<le> 1)"
  proof (elim disjE exE conjE)
    assume "fst (gift_command app now d author author_name target target_name is_bot amt msg) = d"
    then show ?thesis by (intro exI [of _ "[]"]) simp
  next
    fix s r d1 vs vr t1 t2 g
    assume g: "get_or_create_user d target target_name = (r, d1)"
      and ne: "user_pk s \<noteq> user_pk r"
      and t: "t_user_id t1 = user_pk s" "t_user_id t2 = user_pk r"
      and res: "fst (gift_command app now d author author_name target target_name is_bot amt msg)
             = (put_user vr (put_user vs d1))\<lparr>gifts := gifts d1 @ [g],
                  transactions := transactions d1 @ [t1, t2]\<rparr>"
    have "transactions d1 = transactions d"
      using get_or_create_user_same_tables [OF g] by simp
    then have "transactions (fst (gift_command app now d author author_name target target_name
                 is_bot amt msg)) = transactions d @ [t1, t2]"
      by (simp add: res)
    moreover have "\<forall>k. length (filter (\<lambda>t. t_user_id t = k) [t1, t2]) \<le> 1"
      using ne t by simp
    ultimately show ?thesis by blast
  qed
  then show ?thesis using GiftTransfer by simp
qed

lemma shop_consistent: "ledger_consistent shop"
  by (simp add: ledger_consistent_def rows_consistent_def ledger_sum_def example_defs)

lemma shop_non_negative: "coins_non_negative shop"
  by (simp add: coins_non_negative_def check_coins_non_negative_def example_defs)

section \<open>The claims\<close>

subsection \<open>C1: the cached balance equals the ledger\<close>

text \<open>
  C1: every balance-mutating operation (message earning, buy, gift, administrative
  adjustment) takes a store in which every user's \<open>coins\<close> equals the sum of the user's
  transactions to a store where this holds again. The operation only appends transactions,
  at most one per user, and each user's balance changes by exactly the amount of the
  transaction appended for that user (by nothing when none is appended): the balance change
  and its transaction are written by the same commit.
\<close>

theorem ledger_balance_invariant:
  assumes "ledger_consistent d"
  shows "ledger_consistent (apply_operation app py_int now op d)
       \<and> (\<exists>new. transactions (apply_operation app py_int now op d) = transactions d @ new
            \<and> (\<forall>k. balance_of (apply_operation app py_int now op d) k
                       = balance_of d k + ledger_sum new k
                     \<and> length (filter (\<lambda>t. t_user_id t = k) new) \<le> 1))"
proof
  show c: "ledger_consistent (apply_operation app py_int now op d)"
    using assms by (rule operation_consistent)
  obtain new where n: "transactions (apply_operation app py_int now op d) = transactions d @ new"
    and one: "\<forall>k. length (filter (\<lambda>t. t_user_id t = k) new) \<le> 1"
    using operation_appends [of app py_int now op d] by blast
  have "balance_of (apply_operation app py_int now op d) k = balance_of d k + ledger_sum new k" for k
    using balance_is_ledger [OF c, of k] balance_is_ledger [OF assms, of k] n
    by (simp add: ledger_sum_append)
  then show "\<exists>new. transactions (apply_operation app py_int now op d) = transactions d @ new
            \<and> (\<forall>k. balance_of (apply_operation app py_int now op d) k
                       = balance_of d k + ledger_sum new k
                     \<and> length (filter (\<lambda>t. t_user_id t = k) new) \<le> 1)"
    using n one by blast
qed

theorem ledger_balance_invariant_witness:
  "ledger_consistent shop
   \<and> ledger_consistent (apply_operation True (\<lambda>s. None) 77 (BuyItem ''1001'' 2 1) shop)
   \<and> balance_of shop 1 = 50
   \<and> balance_of (apply_operation True (\<lambda>s. None) 77 (BuyItem ''1001'' 2 1) shop) 1 = 20
   \<and> ledger_consistent
        (apply_operation True (\<lambda>s. None) 77 (GiftTransfer ''1001'' ''Steve'' ''1003'' ''Zed'' False 30 None) shop)"
proof -
  have b: "balance_of shop 1 = 50"
    by (simp add: balance_of_def store_defs example_defs)
  have a: "balance_of (apply_operation True (\<lambda>s. None) 77 (BuyItem ''1001'' 2 1) shop) 1 = 20"
    by (simp add: balance_of_def buy_command_def store_defs example_defs Let_def)
  show ?thesis
    using shop_consistent a b
      ledger_balance_invariant [OF shop_consistent, of True "\<lambda>s. None" 77 "BuyItem ''1001'' 2 1"]
      ledger_balance_invariant [OF shop_consistent, of True "\<lambda>s. None" 77
        "GiftTransfer ''1001'' ''Steve'' ''1003'' ''Zed'' False 30 None"]
    by blast
qed

subsection \<open>C2: no negative balance is committed\<close>

text \<open>
  C2, as stated, asks that a posting that would make the balance negative be rejected with
  \<^verbatim>\<open>InsufficientFunds\<close> before any mutation. \<^verbatim>\<open>update_user_coins\<close> has no such check: with a
  balance of 50 and an amount of -80 the user object of the session holds -30 coins when the
  commit is called, the commit is refused by the constraint \<^verbatim>\<open>coins >= 0\<close>, and the answer is the
  one the handler gives for every exception (here the same as for a user that does not
  exist).
\<close>

theorem admin_adjustment_rejected_at_commit:
  "balance_of shop 1 = 50
   \<and> map_option (\<lambda>s. coins (fst s)) (update_user_coins_session 77 shop 1 (Some (- 80)) None)
        = Some (- 30)
   \<and> update_user_coins 77 shop 1 (Some (- 80)) None
        = (shop, ([(''error'', JStr ''Internal server error'')], 500))
   \<and> update_user_coins 77 shop 99 (Some 5) None
        = (shop, ([(''error'', JStr ''Internal server error'')], 500))"
  by (simp add: balance_of_def update_user_coins_def update_user_coins_session_def store_defs
      example_defs Let_def)

text \<open>
  C2 (amended): no balance-mutating operation commits a negative balance. An administrative
  adjustment that would make the balance negative is refused when the session is committed,
  by the constraint \<^verbatim>\<open>coins >= 0\<close> of the store; the handler answers with status 500 and
  \<^verbatim>\<open>Internal server error\<close>, and the committed balance and transaction log are unchanged. A gift
  larger than the sender's balance is refused by the command before anything is written (as
  is a buy, see C8).
\<close>

theorem negative_balance_never_committed:
  "(coins_non_negative d \<longrightarrow> coins_non_negative (apply_operation app py_int now op d))
   \<and> (get_user d k = Some u \<and> coins u + amt < 0 \<longrightarrow>
        update_user_coins now d k (Some amt) descr
          = (d, ([(''error'', JStr ''Internal server error'')], 500)))
   \<and> (user_by_discord_id d author = Some s \<and> coins s < gift_amt \<longrightarrow>
        fst (gift_command app now d author author_name target target_name is_bot gift_amt msg) = d)"
proof (intro conjI impI)
  assume "coins_non_negative d"
  then show "coins_non_negative (apply_operation app py_int now op d)"
    by (rule operation_non_negative)
next
  assume "get_user d k = Some u \<and> coins u + amt < 0"
  then show "update_user_coins now d k (Some amt) descr
          = (d, ([(''error'', JStr ''Internal server error'')], 500))"
    by (simp add: update_user_coins_def update_user_coins_session_def Let_def
        check_coins_non_negative_def)
next
  assume "user_by_discord_id d author = Some s \<and> coins s < gift_amt"
  then show "fst (gift_command app now d author author_name target target_name is_bot gift_amt msg) = d"
    by (simp add: gift_command_def)
qed

theorem negative_balance_never_committed_witness:
  "coins_non_negative shop
   \<and> coins_non_negative (apply_operation True (\<lambda>s. None) 77 (AdminAdjust 1 (Some (- 80)) None) shop)
   \<and> get_user shop 1 = Some steve \<and> coins steve + - 80 < 0
   \<and> update_user_coins 77 shop 1 (Some (- 80)) None
        = (shop, ([(''error'', JStr ''Internal server error'')], 500))
   \<and> user_by_discord_id shop ''1001'' = Some steve \<and> coins steve < 80
   \<and> fst (gift_command True 77 shop ''1001'' ''Steve'' ''1002'' ''Alex'' False 80 None) = shop"
proof -
  have g: "get_user shop 1 = Some steve" and n: "coins steve + - 80 < 0"
    and u: "user_by_discord_id shop ''1001'' = Some steve" and l: "coins steve < 80"
    by (simp_all add: store_defs example_defs)
  note T = negative_balance_never_committed
  have a: "coins_non_negative (apply_operation True (\<lambda>s. None) 77 (AdminAdjust 1 (Some (- 80)) None) shop)"
    using T [of shop True "\<lambda>s. None" 77 "AdminAdjust 1 (Some (- 80)) None"] shop_non_negative
    by blast
  have b: "update_user_coins 77 shop 1 (Some (- 80)) None
        = (shop, ([(''error'', JStr ''Internal server error'')], 500))"
    using T [of shop _ _ 77 _ 1 steve "- 80" None] g n by blast
  have c: "fst (gift_command True 77 shop ''1001'' ''Steve'' ''1002'' ''Alex'' False 80 None) = shop"
    using T [of shop True _ 77 _ _ _ _ _ "''1001''" steve 80 "''Steve''" "''1002''" "''Alex''" False None]
      u l by blast
  show ?thesis using shop_non_negative a g n b u l c by blast
qed

subsection \<open>C3: partial failure of a purchase that needs a role and a command\<close>

text \<open>
  C3, as stated, asks that the resolved command be recorded on \<open>minecraft_command\<close> although
  the command failed. \<^verbatim>\<open>execute_minecraft_command\<close> assigns the field only inside
  \<^verbatim>\<open>if success:\<close>. In the example the role is granted, the command server refuses the
  connection, the command resolves to \<^verbatim>\<open>lp user Steve parent add vip\<close>, and the field of the
  purchase stays \<open>None\<close>.
\<close>

theorem command_not_recorded_on_failure:
  "item_type vip = Both \<and> grant_role rcon_down (discord_id steve) ''777''
   \<and> \<not> execute_command (integration rcon_down) (rcon_server rcon_down)
         (resolve_command steve ''lp user {username} parent add vip'') None None None
   \<and> resolve_command steve ''lp user {username} parent add vip'' = ''lp user Steve parent add vip''
   \<and> map_option minecraft_command (get_purchase (fst (process_purchase rcon_down order1 shop)) 1) = Some None"
  by (simp add: worker_defs example_defs truthy_def Let_def get_purchase_upd get_purchase_def
      get_item_def get_user_def upd_purchase_def execute_command_def wait_for_def or_str_def or_port_def
      resolve_command_def)

text \<open>
  C3 (amended): for a purchase of an item of type \<open>Both\<close> with a role and a command template
  set, if the role grant succeeds and the remote command fails, the worker attempts both side
  effects, settles the purchase as \<open>Failed\<close>, sets \<open>discord_role_assigned\<close> and leaves every
  other field of the row, \<open>minecraft_command\<close> included, as it was: the resolved command is
  recorded only when the command succeeds.
\<close>

theorem partial_failure_keeps_role:
  assumes "get_purchase d (purchase_pk p) = Some row"
    and "get_item d (item_id p) = Some it"
    and "get_user d (user_id p) = Some u"
    and "item_type it = Both"
    and "discord_role_id it = Some role" and "role \<noteq> []"
    and "minecraft_command_template it = Some template" and "template \<noteq> []"
    and "grant_role w (discord_id u) role"
    and "\<not> execute_command (integration w) (rcon_server w) (resolve_command u template) None None None"
  shows "get_purchase (fst (process_purchase w p d)) (purchase_pk p)
           = Some (row\<lparr>status := Failed, discord_role_assigned := True\<rparr>)
       \<and> snd (process_purchase w p d)
           = [EvCommit [(purchase_pk p, Processing)], EvAssignRole (purchase_pk p) role,
              EvExecuteCommand (purchase_pk p) (resolve_command u template),
              EvCommit [(purchase_pk p, Failed)]]"
  using assms by (simp add: worker_defs truthy_def Let_def get_purchase_upd)

theorem partial_failure_keeps_role_witness:
  "get_purchase shop (purchase_pk order1) = Some order1
   \<and> get_item shop (item_id order1) = Some vip
   \<and> get_user shop (user_id order1) = Some steve
   \<and> grant_role rcon_down (discord_id steve) ''777''
   \<and> get_purchase (fst (process_purchase rcon_down order1 shop)) (purchase_pk order1)
        = Some (order1\<lparr>status := Failed, discord_role_assigned := True\<rparr>)"
proof -
  have h1: "get_purchase shop (purchase_pk order1) = Some order1"
    and h2: "get_item shop (item_id order1) = Some vip"
    and h3: "get_user shop (user_id order1) = Some steve"
    by (simp_all add: store_defs example_defs)
  have h4: "item_type vip = Both" and h5: "discord_role_id vip = Some ''777''"
    and h6: "minecraft_command_template vip = Some ''lp user {username} parent add vip''"
    by (simp_all add: vip_def)
  have h7: "grant_role rcon_down (discord_id steve) ''777''"
    by (simp add: rcon_down_def)
  show ?thesis
    using partial_failure_keeps_role [OF h1 h2 h3 h4 h5 _ h6 _ h7 rcon_down_fails] h1 h2 h3 h7
    by simp
qed

subsection \<open>C4: the claim of a pending purchase\<close>

text \<open>
  C4, as stated, fails twice. The worker of src/discord_bot.py writes no \<open>Processing\<close> status:
  its first visible action on a purchase is the call of the remote execution client, and its
  only commit comes after the loop. The worker of src/discord_bot_slash.py writes the claim
  without looking at the status the row has by then: when the second sweep has claimed and
  fulfilled \<open>order2\<close> while the first awaited the side effects of \<open>order1\<close>, the first sweep
  claims \<open>order2\<close> again (it is in the list its query returned) and sends the command a second
  time.
\<close>

theorem overlapping_sweeps_claim_twice:
  "snd (discord_bot_process_pending_purchases format_username (\<lambda>identity. Delivered) all_up shop)
     = [EvExecuteCommand 1 ''lp user Steve parent add vip'', EvNotify 1,
        EvCommit [(1, Fulfilled)]]
   \<and> \<not> claim_first [] (snd (discord_bot_process_pending_purchases format_username
         (\<lambda>identity. Delivered) all_up shop))
   \<and> pending_purchases two_orders = [order1, order2]
   \<and> map (\<lambda>q. (purchase_pk q, status q)) (purchases after_first_claim)
       = [(1, Processing), (2, Pending)]
   \<and> snd (process_pending_purchases all_up after_first_claim)
       = [EvCommit [(2, Processing)], EvExecuteCommand 2 ''give Alex diamond_sword 1'',
          EvCommit [(2, Fulfilled)]]
   \<and> map_option status (get_purchase after_first_settled 2) = Some Fulfilled
   \<and> snd (process_purchase all_up order2 after_first_settled)
       = [EvCommit [(2, Processing)], EvExecuteCommand 2 ''give Alex diamond_sword 1'',
          EvCommit [(2, Fulfilled)]]"
  by (simp add: eval_defs discord_bot_process_pending_purchases_def
       discord_bot_process_purchase_def format_username_def two_orders_def after_first_claim_def
       after_second_sweep_def after_first_settled_def)

text \<open>
  C4 (amended): in every sweep of the slash-command worker, each role grant and each call of
  the remote execution client comes after the commit that wrote status \<open>Processing\<close> for the
  same purchase; every action of the sweep is about a purchase that was \<open>Pending\<close> in the
  store when the sweep queried it; and a key that no pending purchase carries at that moment
  (a purchase in processing or in a terminal state) keeps its row through the sweep. The
  claim itself is unconditional, so nothing is promised for a sweep whose query ran before
  another sweep's claim.
\<close>

theorem claim_committed_before_side_effects:
  "claim_first [] (snd (process_pending_purchases w d))
   \<and> (\<forall>e \<in> set (snd (process_pending_purchases w d)). \<forall>k \<in> set (event_keys e).
         \<exists>q \<in> set (purchases d). purchase_pk q = k \<and> status q = Pending)
   \<and> ((\<forall>q \<in> set (purchases d). purchase_pk q = k \<longrightarrow> status q \<noteq> Pending) \<longrightarrow>
         get_purchase (fst (process_pending_purchases w d)) k = get_purchase d k)"
proof (intro conjI ballI impI)
  show "claim_first [] (snd (process_pending_purchases w d))"
    by (simp add: process_pending_purchases_def sweep_claim_first)
next
  fix e j
  assume "e \<in> set (snd (process_pending_purchases w d))" and "j \<in> set (event_keys e)"
  then have "j \<in> purchase_pk ` set (pending_purchases d)"
    using sweep_keys [of e w "pending_purchases d" d j]
    by (simp add: process_pending_purchases_def split: if_splits)
  then show "\<exists>q \<in> set (purchases d). purchase_pk q = j \<and> status q = Pending"
    by (auto simp: pending_purchases_def)
next
  assume "\<forall>q \<in> set (purchases d). purchase_pk q = k \<longrightarrow> status q \<noteq> Pending"
  then have "k \<notin> purchase_pk ` set (pending_purchases d)"
    by (auto simp: pending_purchases_def)
  then show "get_purchase (fst (process_pending_purchases w d)) k = get_purchase d k"
    by (simp add: process_pending_purchases_def sweep_other_row)
qed

theorem claim_committed_before_side_effects_witness:
  "claim_first [] (snd (process_pending_purchases all_up shop))
   \<and> EvAssignRole 1 ''777'' \<in> set (snd (process_pending_purchases all_up shop))
   \<and> (\<exists>q. q \<in> set (purchases shop) \<and> purchase_pk q = 1 \<and> status q = Pending)
   \<and> pending_purchases settled_shop = []
   \<and> get_purchase (fst (process_pending_purchases all_up settled_shop)) 1
        = get_purchase settled_shop 1"
proof -
  have t: "EvAssignRole 1 ''777'' \<in> set (snd (process_pending_purchases all_up shop))"
    by (simp add: eval_defs)
  have e: "pending_purchases settled_shop = []"
    by (simp add: pending_purchases_def settled_shop_def example_defs)
  have h: "\<forall>q \<in> set (purchases settled_shop). purchase_pk q = 1 \<longrightarrow> status q \<noteq> Pending"
    by (simp add: settled_shop_def example_defs)
  have k: "1 \<in> set (event_keys (EvAssignRole 1 ''777''))"
    by simp
  have a: "claim_first [] (snd (process_pending_purchases all_up shop))"
    using claim_committed_before_side_effects [of all_up shop] by blast
  have "\<exists>q \<in> set (purchases shop). purchase_pk q = 1 \<and> status q = Pending"
    using claim_committed_before_side_effects [of all_up shop] t k by blast
  then have b: "\<exists>q. q \<in> set (purchases shop) \<and> purchase_pk q = 1 \<and> status q = Pending"
    by blast
  have c: "get_purchase (fst (process_pending_purchases all_up settled_shop)) 1
        = get_purchase settled_shop 1"
    using claim_committed_before_side_effects [of all_up settled_shop 1] h by blast
  show ?thesis using a t b e c by blast
qed

subsection \<open>C5: fulfilled only after every required side effect\<close>

text \<open>
  C5, as stated, takes the side effects a purchase requires from the item's fulfillment kind.
  \<^verbatim>\<open>fulfill_purchase\<close> attempts a side effect only when the kind asks for it and the column that
  describes it is set. A purchase of a \<open>Both\<close> item with no role identifier ends \<open>Fulfilled\<close>
  with no role grant attempted, in a world where no role grant succeeds; a purchase of a
  \<open>Minecraft\<close> item with no command template ends \<open>Fulfilled\<close> with no side effect at all,
  in a world where the command server refuses every connection.
\<close>

theorem fulfilled_without_required_side_effect:
  "item_type bare_vip = Both \<and> discord_role_id bare_vip = None
   \<and> (\<forall>identity role. \<not> grant_role no_grants identity role)
   \<and> get_purchase (fst (process_purchase no_grants order4 bare_shop)) 4
        = Some (order4\<lparr>status := Fulfilled, fulfilled_at := Some 1000,
                  minecraft_command := Some ''lp user Steve parent add vip''\<rparr>)
   \<and> snd (process_purchase no_grants order4 bare_shop)
        = [EvCommit [(4, Processing)], EvExecuteCommand 4 ''lp user Steve parent add vip'',
           EvCommit [(4, Fulfilled)]]
   \<and> item_type bare_kit = Minecraft \<and> minecraft_command_template bare_kit = None
   \<and> get_purchase (fst (process_purchase rcon_down order5 bare_shop)) 5
        = Some (order5\<lparr>status := Fulfilled, fulfilled_at := Some 1000\<rparr>)
   \<and> snd (process_purchase rcon_down order5 bare_shop)
        = [EvCommit [(5, Processing)], EvCommit [(5, Fulfilled)]]"
  by (simp add: eval_defs bare_vip_def bare_kit_def order4_def order5_def bare_shop_def
      no_grants_def)

text \<open>
  C5 (amended): in the slash-command worker a purchase ends \<open>Fulfilled\<close> only if its item and
  its buyer were found and every side effect the worker attempts for the item succeeded;
  \<open>fulfilled_at\<close> is then set to the time of the sweep. The worker attempts a role grant when
  the item's type is \<open>Discord\<close> or \<open>Both\<close> and its role identifier is set, and a remote command
  when the type is \<open>Minecraft\<close> or \<open>Both\<close> and its command template is set (\<open>required_role\<close>,
  \<open>required_template\<close>); an item whose type asks for a side effect whose column is empty is
  fulfilled without it. When both side effects are attempted, the trace of the purchase
  holds the role grant and then the call of the remote execution client, whatever the role
  grant returned.
\<close>

theorem fulfilled_only_after_all_required:
  assumes "get_purchase d (purchase_pk p) = Some row"
  shows "(map_option status (get_purchase (fst (process_purchase w p d)) (purchase_pk p)) = Some Fulfilled \<longrightarrow>
           (\<exists>it u. get_item d (item_id p) = Some it \<and> get_user d (user_id p) = Some u
              \<and> (\<forall>role. required_role it = Some role \<longrightarrow> grant_role w (discord_id u) role)
              \<and> (\<forall>template. required_template it = Some template \<longrightarrow>
                    execute_command (integration w) (rcon_server w) (resolve_command u template)
                      None None None)
              \<and> map_option fulfilled_at (get_purchase (fst (process_purchase w p d)) (purchase_pk p))
                    = Some (Some (clock w))))
       \<and> (\<forall>it u role template.
             get_item d (item_id p) = Some it \<and> get_user d (user_id p) = Some u
             \<and> required_role it = Some role \<and> required_template it = Some template \<longrightarrow>
             (\<exists>c. snd (process_purchase w p d)
                = [EvCommit [(purchase_pk p, Processing)], EvAssignRole (purchase_pk p) role,
                   EvExecuteCommand (purchase_pk p) (resolve_command u template),
                   EvCommit [(purchase_pk p, c)]]))"
proof (intro conjI impI allI)
  let ?d1 = "fst (claim_purchase p d)"
  assume f: "map_option status (get_purchase (fst (process_purchase w p d)) (purchase_pk p)) = Some Fulfilled"
  have c: "get_purchase ?d1 (purchase_pk p) = Some (row\<lparr>status := Processing\<rparr>)"
    using assms by (rule claim_purchase_row)
  from settle_purchase_status [OF c, of w] f
  have "\<exists>it u. get_item d (item_id p) = Some it \<and> get_user d (user_id p) = Some u
          \<and> fst (snd (fulfill_purchase w (purchase_pk p) it u ?d1))"
    and t: "map_option fulfilled_at (get_purchase (fst (process_purchase w p d)) (purchase_pk p))
              = Some (Some (clock w))"
    by (auto simp: process_purchase_split split: if_splits)
  then obtain it u where "get_item d (item_id p) = Some it" "get_user d (user_id p) = Some u"
     "fst (snd (fulfill_purchase w (purchase_pk p) it u d))"
    by (auto simp: fulfill_purchase_success)
  then show "\<exists>it u. get_item d (item_id p) = Some it \<and> get_user d (user_id p) = Some u
              \<and> (\<forall>role. required_role it = Some role \<longrightarrow> grant_role w (discord_id u) role)
              \<and> (\<forall>template. required_template it = Some template \<longrightarrow>
                    execute_command (integration w) (rcon_server w) (resolve_command u template)
                      None None None)
              \<and> map_option fulfilled_at (get_purchase (fst (process_purchase w p d)) (purchase_pk p))
                    = Some (Some (clock w))"
    using t by (auto simp: fulfill_purchase_success)
next
  fix it u role template
  assume h: "get_item d (item_id p) = Some it \<and> get_user d (user_id p) = Some u
             \<and> required_role it = Some role \<and> required_template it = Some template"
  then obtain c where "snd (settle_purchase w p (fst (claim_purchase p d)))
     = snd (snd (fulfill_purchase w (purchase_pk p) it u (fst (claim_purchase p d))))
       @ [EvCommit [(purchase_pk p, c)]]"
    using settle_purchase_events [of "fst (claim_purchase p d)" p it u w] by auto
  then show "\<exists>c. snd (process_purchase w p d)
                = [EvCommit [(purchase_pk p, Processing)], EvAssignRole (purchase_pk p) role,
                   EvExecuteCommand (purchase_pk p) (resolve_command u template),
                   EvCommit [(purchase_pk p, c)]]"
    using h by (simp add: process_purchase_split fulfill_purchase_events)
qed

theorem fulfilled_only_after_all_required_witness:
  "get_purchase shop (purchase_pk order1) = Some order1
   \<and> map_option status (get_purchase (fst (process_purchase all_up order1 shop)) (purchase_pk order1))
        = Some Fulfilled
   \<and> map_option fulfilled_at (get_purchase (fst (process_purchase all_up order1 shop)) (purchase_pk order1))
        = Some (Some (clock all_up))
   \<and> required_role vip = Some ''777''
   \<and> required_template vip = Some ''lp user {username} parent add vip''
   \<and> (\<exists>c. snd (process_purchase rcon_down order1 shop)
         = [EvCommit [(purchase_pk order1, Processing)], EvAssignRole (purchase_pk order1) ''777'',
            EvExecuteCommand (purchase_pk order1)
              (resolve_command steve ''lp user {username} parent add vip''),
            EvCommit [(purchase_pk order1, c)]])"
proof -
  have h1: "get_purchase shop (purchase_pk order1) = Some order1"
    and h2: "get_item shop (item_id order1) = Some vip"
    and h3: "get_user shop (user_id order1) = Some steve"
    by (simp_all add: store_defs example_defs)
  have r: "required_role vip = Some ''777''"
    and t: "required_template vip = Some ''lp user {username} parent add vip''"
    by (simp_all add: required_role_def required_template_def truthy_def vip_def)
  have f: "map_option status (get_purchase (fst (process_purchase all_up order1 shop)) (purchase_pk order1))
        = Some Fulfilled"
    by (simp add: eval_defs)
  have a: "map_option fulfilled_at (get_purchase (fst (process_purchase all_up order1 shop)) (purchase_pk order1))
        = Some (Some (clock all_up))"
    using fulfilled_only_after_all_required [OF h1, of all_up] f by blast
  have b: "\<exists>c. snd (process_purchase rcon_down order1 shop)
         = [EvCommit [(purchase_pk order1, Processing)], EvAssignRole (purchase_pk order1) ''777'',
            EvExecuteCommand (purchase_pk order1)
              (resolve_command steve ''lp user {username} parent add vip''),
            EvCommit [(purchase_pk order1, c)]]"
    using fulfilled_only_after_all_required [OF h1, of rcon_down] h2 h3 r t by blast
  show ?thesis using h1 f a r t b by blast
qed

subsection \<open>C6: a purchase whose user or item is missing\<close>

text \<open>
  The slash-command worker does what C6 says: the purchase is claimed and settled as
  \<open>Failed\<close> with no side effect in between, and no later sweep takes it up again, since a
  sweep takes only pending purchases.
\<close>

lemma missing_reference_fails:
  assumes "get_purchase d (purchase_pk p) = Some row"
    and "get_item d (item_id p) = None \<or> get_user d (user_id p) = None"
  shows "get_purchase (fst (process_purchase w p d)) (purchase_pk p) = Some (row\<lparr>status := Failed\<rparr>)
       \<and> snd (process_purchase w p d)
           = [EvCommit [(purchase_pk p, Processing)], EvCommit [(purchase_pk p, Failed)]]"
  using assms
  by (auto simp: process_purchase_def claim_purchase_def settle_purchase_def Let_def get_purchase_upd
        split: option.splits)

text \<open>
  C6 fails in the worker of src/discord_bot.py, whose guard is \<^verbatim>\<open>continue\<close>: the purchase of a
  user that does not exist is left as it is, the commit after the loop writes nothing, and
  the purchase is still in the list of pending purchases that the next sweep will query. On
  the same store the slash-command worker settles it as \<open>Failed\<close>.
\<close>

theorem prefix_worker_leaves_orphan_pending:
  "get_user orphan_shop (user_id orphan) = None
   \<and> discord_bot_process_pending_purchases format_username (\<lambda>identity. Delivered) all_up orphan_shop
       = (orphan_shop, [EvCommit []])
   \<and> pending_purchases orphan_shop = [orphan]
   \<and> map_option status (get_purchase (fst (process_pending_purchases all_up orphan_shop)) 3) = Some Failed"
  by (simp add: eval_defs orphan_shop_def discord_bot_process_pending_purchases_def
       discord_bot_process_purchase_def)

subsection \<open>C7: notification of the buyer\<close>

text \<open>
  What the two workers do around the notification, for every store and world. In the
  slash-command worker a purchase whose item and buyer are found and whose attempted side
  effects all succeed ends \<open>Fulfilled\<close> with \<open>fulfilled_at\<close> set, and no sweep of that worker
  sends a message to anyone. The worker of src/discord_bot.py sends a message for a purchase
  only after the remote command for it has succeeded.
\<close>

lemma slash_worker_fulfils_without_notification:
  assumes "get_purchase d (purchase_pk p) = Some row"
    and "get_item d (item_id p) = Some it" and "get_user d (user_id p) = Some u"
    and "\<forall>role. required_role it = Some role \<longrightarrow> grant_role w (discord_id u) role"
    and "\<forall>template. required_template it = Some template \<longrightarrow>
           execute_command (integration w) (rcon_server w) (resolve_command u template) None None None"
  shows "map_option status (get_purchase (fst (process_purchase w p d)) (purchase_pk p)) = Some Fulfilled
       \<and> map_option fulfilled_at (get_purchase (fst (process_purchase w p d)) (purchase_pk p))
            = Some (Some (clock w))
       \<and> (\<forall>e \<in> set (snd (process_pending_purchases w d)). \<not> is_notify e)
       \<and> (\<forall>format direct_message d'.
            EvNotify (purchase_pk p)
              \<in> set (snd (discord_bot_process_purchase format direct_message w p d')) \<longrightarrow>
            (\<exists>u' it' template command.
               get_user d' (user_id p) = Some u' \<and> get_item d' (item_id p) = Some it'
               \<and> minecraft_command_template it' = Some template
               \<and> format template (or_str (minecraft_uuid u') (username u')) = Some command
               \<and> execute_command (integration w) (rcon_server w) command None None None))"
proof (intro conjI ballI allI impI)
  let ?d1 = "fst (claim_purchase p d)"
  have c: "get_purchase ?d1 (purchase_pk p) = Some (row\<lparr>status := Processing\<rparr>)"
    using assms(1) by (rule claim_purchase_row)
  have ok: "fst (snd (fulfill_purchase w (purchase_pk p) it u ?d1))"
    using assms(4,5) by (simp add: fulfill_purchase_success)
  have s: "map_option status (get_purchase (fst (settle_purchase w p ?d1)) (purchase_pk p)) = Some Fulfilled"
    using settle_purchase_status [OF c, of w] assms(2,3) ok by auto
  then show "map_option status (get_purchase (fst (process_purchase w p d)) (purchase_pk p)) = Some Fulfilled"
    by (simp add: process_purchase_split)
  show "map_option fulfilled_at (get_purchase (fst (process_purchase w p d)) (purchase_pk p))
            = Some (Some (clock w))"
    using settle_purchase_status [OF c, of w] s by (simp add: process_purchase_split)
next
  fix e
  assume "e \<in> set (snd (process_pending_purchases w d))"
  then show "\<not> is_notify e"
    using sweep_no_notify [of e w "pending_purchases d" d]
    by (simp add: process_pending_purchases_def split: if_splits)
next
  fix format direct_message d'
  assume n: "EvNotify (purchase_pk p)
              \<in> set (snd (discord_bot_process_purchase format direct_message w p d'))"
  show "\<exists>u' it' template command.
               get_user d' (user_id p) = Some u' \<and> get_item d' (item_id p) = Some it'
               \<and> minecraft_command_template it' = Some template
               \<and> format template (or_str (minecraft_uuid u') (username u')) = Some command
               \<and> execute_command (integration w) (rcon_server w) command None None None"
  proof (cases "get_user d' (user_id p)")
    case None
    then show ?thesis using n by (simp add: discord_bot_process_purchase_def)
  next
    case u': (Some u')
    show ?thesis
    proof (cases "get_item d' (item_id p)")
      case None
      then show ?thesis using n u' by (simp add: discord_bot_process_purchase_def)
    next
      case it': (Some it')
      show ?thesis
      proof (cases "minecraft_command_template it'")
        case None
        then show ?thesis using n u' it' by (simp add: discord_bot_process_purchase_def)
      next
        case t: (Some template)
        show ?thesis
        proof (cases "format template (or_str (minecraft_uuid u') (username u'))")
          case None
          then show ?thesis using n u' it' t by (simp add: discord_bot_process_purchase_def)
        next
          case (Some command)
          then show ?thesis using n u' it' t
            by (cases "execute_command (integration w) (rcon_server w) command None None None")
               (simp_all add: discord_bot_process_purchase_def)
        qed
      qed
    qed
  qed
qed

text \<open>
  C7 holds in neither worker. In the worker of src/discord_bot.py the message to the buyer is
  awaited inside the \<^verbatim>\<open>try\<close> of the loop body, whose handler sets the status to \<^verbatim>\<open>failed\<close>: when
  the command has succeeded and the message raises, the purchase that was delivered and set to
  \<open>Fulfilled\<close> is committed as \<open>Failed\<close>, with \<open>fulfilled_at\<close> and \<open>minecraft_command\<close> still
  set. (The gift command guards the same call with its own \<^verbatim>\<open>except discord.Forbidden: pass\<close>.)
  When the message is delivered the same worker does what C7 says. On the same store the
  worker of src/discord_bot_slash.py fulfils the purchase and sends no message at all.
\<close>

theorem notification_failure_marks_purchase_failed:
  "discord_bot_process_pending_purchases format_username (\<lambda>identity. SendRaises) all_up shop
     = (shop\<lparr>purchases := [order1\<lparr>status := Failed, fulfilled_at := Some 1000,
                 minecraft_command := Some ''lp user Steve parent add vip''\<rparr>]\<rparr>,
        [EvExecuteCommand 1 ''lp user Steve parent add vip'', EvNotify 1, EvCommit [(1, Failed)]])
   \<and> discord_bot_process_pending_purchases format_username (\<lambda>identity. Delivered) all_up shop
     = (shop\<lparr>purchases := [order1\<lparr>status := Fulfilled, fulfilled_at := Some 1000,
                 minecraft_command := Some ''lp user Steve parent add vip''\<rparr>]\<rparr>,
        [EvExecuteCommand 1 ''lp user Steve parent add vip'', EvNotify 1,
         EvCommit [(1, Fulfilled)]])
   \<and> process_pending_purchases all_up shop
     = (shop\<lparr>purchases := [order1\<lparr>status := Fulfilled, fulfilled_at := Some 1000,
                 minecraft_command := Some ''lp user Steve parent add vip'',
                 discord_role_assigned := True\<rparr>]\<rparr>,
        [EvCommit [(1, Processing)], EvAssignRole 1 ''777'',
         EvExecuteCommand 1 ''lp user Steve parent add vip'', EvCommit [(1, Fulfilled)]])"
  by (simp add: eval_defs discord_bot_process_pending_purchases_def
       discord_bot_process_purchase_def format_username_def)

subsection \<open>C8: buying with an insufficient balance\<close>

text \<open>
  C8: when the buyer has an account and every item with the requested identifier costs, times
  the quantity, more than the buyer's balance, both buy commands (the slash command of
  src/discord_bot_slash.py and the prefix command of src/discord_bot.py) return the store they
  were given: the balance is unchanged and no purchase and no transaction is created.
\<close>

theorem insufficient_balance_rejects_buy:
  assumes "user_by_discord_id d author = Some u"
    and "\<forall>it \<in> set (items d). int (item_pk it) = item_arg \<longrightarrow> coins u < price it * qty"
  shows "fst (buy_command app now d author item_arg qty) = d
       \<and> fst (buy is_active now d author display_name item_arg qty) = d"
proof
  show "fst (buy_command app now d author item_arg qty) = d"
  proof (cases "find (\<lambda>i. int (item_pk i) = item_arg \<and> is_available i) (items d)")
    case None
    then show ?thesis using assms(1) by (simp add: buy_command_def)
  next
    case (Some it)
    then have "it \<in> set (items d)" "int (item_pk it) = item_arg"
      by (auto simp: find_Some_iff)
    with assms(2) have "coins u < price it * qty" by blast
    then show ?thesis using assms(1) Some by (simp add: buy_command_def Let_def)
  qed
next
  show "fst (buy is_active now d author display_name item_arg qty) = d"
  proof (cases "find (\<lambda>i. int (item_pk i) = item_arg) (items d)")
    case None
    then show ?thesis using assms(1)
      by (simp add: buy_def get_or_create_user_existing)
  next
    case (Some it)
    then have "it \<in> set (items d)" "int (item_pk it) = item_arg"
      by (auto simp: find_Some_iff)
    with assms(2) have "coins u < price it * qty" by blast
    then show ?thesis using assms(1) Some
      by (simp add: buy_def get_or_create_user_existing Let_def split: option.splits bool.splits)
  qed
qed

theorem insufficient_balance_rejects_buy_witness:
  "user_by_discord_id shop ''1001'' = Some steve
   \<and> coins steve < price sword * 1
   \<and> fst (buy_command True 77 shop ''1001'' 1 1) = shop
   \<and> fst (buy (\<lambda>i. Some True) 77 shop ''1001'' ''Steve'' 1 1) = shop"
proof -
  have h1: "user_by_discord_id shop ''1001'' = Some steve"
    by (simp add: store_defs example_defs)
  have h2: "\<forall>it \<in> set (items shop). int (item_pk it) = 1 \<longrightarrow> coins steve < price it * 1"
    by (simp add: example_defs)
  have h3: "coins steve < price sword * 1"
    by (simp add: example_defs)
  show ?thesis
    using insufficient_balance_rejects_buy [OF h1 h2, of True 77 "\<lambda>i. Some True" "''Steve''"] h1 h3
    by blast
qed

subsection \<open>C9: the remote execution client returns, whatever the server does\<close>

text \<open>
  C9: \<^verbatim>\<open>get_server_status\<close> and \<^verbatim>\<open>execute_command\<close> return a value in every case (a raised
  lookup, a raised or unfinished call, a timeout): the status is online exactly when the
  lookup gave a server whose status call returned in less than 10 seconds, and the command
  execution is true exactly when a password is configured and the session returned in less
  than 30 seconds.
\<close>

theorem remote_client_never_raises:
  "get_server_status mi lookup host_arg port_arg ''online''
     = Some (PBool (\<exists>s v. lookup (or_str host_arg (default_host mi) @ '':''
                                   @ str_nat (or_port port_arg (default_port mi)))
                             = Inr (Finishes s v) \<and> s < 10))
   \<and> execute_command mi rcon command rcon_host_arg rcon_port_arg password_arg
     = (or_str password_arg (default_rcon_password mi) \<noteq> []
        \<and> (\<exists>s v. rcon command (or_str rcon_host_arg (default_rcon_host mi))
                    (or_port rcon_port_arg (default_rcon_port mi))
                    (or_str password_arg (default_rcon_password mi)) = Finishes s v \<and> s < 30))"
proof
  show "get_server_status mi lookup host_arg port_arg ''online''
     = Some (PBool (\<exists>s v. lookup (or_str host_arg (default_host mi) @ '':''
                                   @ str_nat (or_port port_arg (default_port mi)))
                             = Inr (Finishes s v) \<and> s < 10))"
    by (auto simp: get_server_status_def wait_for_def Let_def
        split: sum.splits thread_run.splits awaited.splits)
  show "execute_command mi rcon command rcon_host_arg rcon_port_arg password_arg
     = (or_str password_arg (default_rcon_password mi) \<noteq> []
        \<and> (\<exists>s v. rcon command (or_str rcon_host_arg (default_rcon_host mi))
                    (or_port rcon_port_arg (default_rcon_port mi))
                    (or_str password_arg (default_rcon_password mi)) = Finishes s v \<and> s < 30))"
    by (auto simp: execute_command_def wait_for_def Let_def split: thread_run.splits awaited.splits)
qed

subsection \<open>C10: the reference of a purchase or gift transaction\<close>

text \<open>
  C10: whenever a buy command or the slash gift command succeeds, it adds one purchase
  (respectively one gift) and the transaction(s) for it, and the reference written on each
  transaction is the literal \<^verbatim>\<open>purchase_None\<close> (respectively \<^verbatim>\<open>gift_None\<close>), which differs from the
  reference built from the key the store gave the new row.
\<close>

theorem reference_id_is_None_literal:
  "(buy_command app now d author item_arg qty = (d', PurchaseSuccessful c r) \<longrightarrow>
      (\<exists>p t. purchases d' = purchases d @ [p] \<and> transactions d' = transactions d @ [t]
         \<and> reference_id t = Some ''purchase_None''
         \<and> reference_id t \<noteq> Some (''purchase_'' @ str_nat (purchase_pk p))))
   \<and> (buy is_active now d author display_name item_arg qty = (d', PurchaseSuccessful c r) \<longrightarrow>
      (\<exists>p t. purchases d' = purchases d @ [p] \<and> transactions d' = transactions d @ [t]
         \<and> reference_id t = Some ''purchase_None''
         \<and> reference_id t \<noteq> Some (''purchase_'' @ str_nat (purchase_pk p))))
   \<and> (gift_command app now d author author_name target target_name is_bot amt msg
         = (d', GiftSentSuccessfully c r) \<longrightarrow>
      (\<exists>g t1 t2. gifts d' = gifts d @ [g] \<and> transactions d' = transactions d @ [t1, t2]
         \<and> reference_id t1 = Some ''gift_None'' \<and> reference_id t2 = Some ''gift_None''
         \<and> Some (''gift_'' @ str_nat (gift_pk g)) \<notin> {reference_id t1, reference_id t2}))"
proof (intro conjI impI)
  assume "buy_command app now d author item_arg qty = (d', PurchaseSuccessful c r)"
  then show "\<exists>p t. purchases d' = purchases d @ [p] \<and> transactions d' = transactions d @ [t]
         \<and> reference_id t = Some ''purchase_None''
         \<and> reference_id t \<noteq> Some (''purchase_'' @ str_nat (purchase_pk p))"
    by (auto simp: buy_command_def Let_def put_user_def str_pk_def unflushed_pk_def str_nat_not_None str_nat_not_None [symmetric]
        split: if_splits option.splits)
next
  assume h: "buy is_active now d author display_name item_arg qty = (d', PurchaseSuccessful c r)"
  obtain u d1 where g: "get_or_create_user d author display_name = (u, d1)" by force
  from get_or_create_user_same_tables[OF g] h g
  show "\<exists>p t. purchases d' = purchases d @ [p] \<and> transactions d' = transactions d @ [t]
         \<and> reference_id t = Some ''purchase_None''
         \<and> reference_id t \<noteq> Some (''purchase_'' @ str_nat (purchase_pk p))"
    by (auto simp: buy_def Let_def put_user_def str_pk_def unflushed_pk_def str_nat_not_None str_nat_not_None [symmetric]
        split: if_splits option.splits bool.splits)
next
  assume h: "gift_command app now d author author_name target target_name is_bot amt msg
         = (d', GiftSentSuccessfully c r)"
  obtain u d1 where g: "get_or_create_user d target target_name = (u, d1)" by force
  from get_or_create_user_same_tables[OF g] h g
  show "\<exists>g t1 t2. gifts d' = gifts d @ [g] \<and> transactions d' = transactions d @ [t1, t2]
         \<and> reference_id t1 = Some ''gift_None'' \<and> reference_id t2 = Some ''gift_None''
         \<and> Some (''gift_'' @ str_nat (gift_pk g)) \<notin> {reference_id t1, reference_id t2}"
    by (auto simp: gift_command_def Let_def put_user_def str_pk_def unflushed_pk_def str_nat_not_None str_nat_not_None [symmetric]
        split: if_splits option.splits)
qed

theorem reference_id_is_None_literal_witness:
  "snd (buy_command True 77 shop ''1001'' 2 1) = PurchaseSuccessful 30 20
   \<and> (\<exists>p t. purchases (fst (buy_command True 77 shop ''1001'' 2 1)) = purchases shop @ [p]
         \<and> transactions (fst (buy_command True 77 shop ''1001'' 2 1)) = transactions shop @ [t]
         \<and> reference_id t = Some ''purchase_None''
         \<and> reference_id t \<noteq> Some (''purchase_'' @ str_nat (purchase_pk p)))
   \<and> snd (buy (\<lambda>i. Some True) 77 shop ''1001'' ''Steve'' 2 1) = PurchaseSuccessful 30 20
   \<and> (\<exists>p t. purchases (fst (buy (\<lambda>i. Some True) 77 shop ''1001'' ''Steve'' 2 1)) = purchases shop @ [p]
         \<and> transactions (fst (buy (\<lambda>i. Some True) 77 shop ''1001'' ''Steve'' 2 1)) = transactions shop @ [t]
         \<and> reference_id t = Some ''purchase_None''
         \<and> reference_id t \<noteq> Some (''purchase_'' @ str_nat (purchase_pk p)))
   \<and> snd (gift_command True 77 shop ''1001'' ''Steve'' ''1002'' ''Alex'' False 30 None)
        = GiftSentSuccessfully 30 20
   \<and> (\<exists>g t1 t2. gifts (fst (gift_command True 77 shop ''1001'' ''Steve'' ''1002'' ''Alex'' False 30 None))
           = gifts shop @ [g]
         \<and> transactions (fst (gift_command True 77 shop ''1001'' ''Steve'' ''1002'' ''Alex'' False 30 None))
           = transactions shop @ [t1, t2]
         \<and> reference_id t1 = Some ''gift_None'' \<and> reference_id t2 = Some ''gift_None''
         \<and> Some (''gift_'' @ str_nat (gift_pk g)) \<notin> {reference_id t1, reference_id t2})"
proof -
  have a: "snd (buy_command True 77 shop ''1001'' 2 1) = PurchaseSuccessful 30 20"
    by (simp add: buy_command_def store_defs example_defs Let_def)
  have b: "snd (buy (\<lambda>i. Some True) 77 shop ''1001'' ''Steve'' 2 1) = PurchaseSuccessful 30 20"
    by (simp add: buy_def store_defs example_defs Let_def)
  have c: "snd (gift_command True 77 shop ''1001'' ''Steve'' ''1002'' ''Alex'' False 30 None)
        = GiftSentSuccessfully 30 20"
    by (simp add: gift_command_def store_defs example_defs Let_def)
  have a': "buy_command True 77 shop ''1001'' 2 1
      = (fst (buy_command True 77 shop ''1001'' 2 1), PurchaseSuccessful 30 20)"
    using a by (simp add: prod_eq_iff)
  have b': "buy (\<lambda>i. Some True) 77 shop ''1001'' ''Steve'' 2 1
      = (fst (buy (\<lambda>i. Some True) 77 shop ''1001'' ''Steve'' 2 1), PurchaseSuccessful 30 20)"
    using b by (simp add: prod_eq_iff)
  have c': "gift_command True 77 shop ''1001'' ''Steve'' ''1002'' ''Alex'' False 30 None
      = (fst (gift_command True 77 shop ''1001'' ''Steve'' ''1002'' ''Alex'' False 30 None),
         GiftSentSuccessfully 30 20)"
    using c by (simp add: prod_eq_iff)
  show ?thesis
    using a b c
      reference_id_is_None_literal [THEN conjunct1, rule_format, OF a']
      reference_id_is_None_literal [THEN conjunct2, THEN conjunct1, rule_format, OF b']
      reference_id_is_None_literal [THEN conjunct2, THEN conjunct2, rule_format, OF c']
    by blast
qed

end
